theory Spec2Isabelle
  imports Main
begin

section \<open>Thrown values\<close>

text \<open>
  The two classes of thrown value the code distinguishes: \<^verbatim>\<open>UserCancelledError\<close>
  (\<^verbatim>\<open>class UserCancelledError extends Error {}\<close>) and any other \<^verbatim>\<open>Error\<close>.
  Each carries its message.
\<close>

datatype thrown = UserCancelledError string | Error string

text \<open>\<^verbatim>\<open>err instanceof UserCancelledError\<close>\<close>

fun instanceof_UserCancelledError :: "thrown \<Rightarrow> bool" where
  "instanceof_UserCancelledError (UserCancelledError m) = True"
| "instanceof_UserCancelledError (Error m) = False"

section \<open>The wizard: \<^verbatim>\<open>WizardBase\<close>, \<^verbatim>\<open>WizardStep\<close>, \<^verbatim>\<open>WizardResult\<close>\<close>

text \<open>
  A step's \<^verbatim>\<open>prompt()\<close> and \<^verbatim>\<open>execute()\<close> are arbitrary code of a subclass. Each is
  modelled as a function on the state \<open>'c\<close> the steps share (everything outside the wizard
  object that a step can read or change): it returns the state it leaves behind and
  \<open>None\<close> when the promise resolves, \<open>Some err\<close> when it rejects with \<open>err\<close>. A step body
  that throws half way leaves its partial effects in the returned state. The promises are
  taken to settle, and a step does not reach into the private fields of the wizard.
\<close>

record 'c WizardStep =
  stepTitle :: string
  prompt :: "'c \<Rightarrow> 'c \<times> thrown option"
  execute :: "'c \<Rightarrow> 'c \<times> thrown option"

datatype WizardStatus = Completed | Faulted | Cancelled

text \<open>
  \<^verbatim>\<open>interface WizardResult { status; step; error }\<close>. \<open>step\<close> is \<open>None\<close> where the
  source stores \<^verbatim>\<open>undefined\<close> (reading \<^verbatim>\<open>steps[-1]\<close> of an empty array) and \<open>error\<close> is
  \<open>None\<close> where it stores \<^verbatim>\<open>null\<close>.
\<close>

record 'c WizardResult =
  status :: WizardStatus
  step :: "'c WizardStep option"
  error :: "thrown option"

text \<open>
  The wizard object: \<^verbatim>\<open>_steps\<close> and \<^verbatim>\<open>_result\<close> (\<open>None\<close> while never assigned).
\<close>

record 'c WizardBase =
  wizard_steps :: "'c WizardStep list"
  wizard_result :: "'c WizardResult option"

text \<open>
  What a run can be observed to do outside the wizard object: the calls it makes, in
  order. A call of \<^verbatim>\<open>prompt()\<close> or \<^verbatim>\<open>execute()\<close> is recorded with the index of the step
  and with what the call raised.
\<close>

datatype call =
    Prompt nat "thrown option"
  | OutputShow
  | BeforeExecute nat
  | Execute nat "thrown option"
  | OnExecuteError nat thrown

record 'c world =
  wcontext :: 'c
  calls :: "call list"

text \<open>
  \<^verbatim>\<open>protected beforeExecute(step, stepIndex) {}\<close> and
  \<^verbatim>\<open>protected onExecuteError(step, stepIndex, error) {}\<close>: the hooks of \<^verbatim>\<open>WizardBase\<close> have
  empty bodies; only the call is recorded. What follows is about the class as it stands,
  not about a subclass that overrides them.
\<close>

definition beforeExecute :: "'c WizardStep \<Rightarrow> nat \<Rightarrow> 'c world \<Rightarrow> 'c world" where
  "beforeExecute stp stepIndex env = env\<lparr>calls := calls env @ [BeforeExecute stepIndex]\<rparr>"

definition onExecuteError :: "'c WizardStep \<Rightarrow> nat \<Rightarrow> thrown \<Rightarrow> 'c world \<Rightarrow> 'c world" where
  "onExecuteError stp stepIndex err env = env\<lparr>calls := calls env @ [OnExecuteError stepIndex err]\<rparr>"

text \<open>\<^verbatim>\<open>await this.steps[i].prompt()\<close> and \<^verbatim>\<open>await this.steps[i].execute()\<close>.\<close>

definition call_prompt :: "'c WizardStep \<Rightarrow> nat \<Rightarrow> 'c world \<Rightarrow> thrown option \<times> 'c world" where
  "call_prompt stp i env =
     (let out = prompt stp (wcontext env)
      in (snd out, \<lparr>wcontext = fst out, calls = calls env @ [Prompt i (snd out)]\<rparr>))"

definition call_execute :: "'c WizardStep \<Rightarrow> nat \<Rightarrow> 'c world \<Rightarrow> thrown option \<times> 'c world" where
  "call_execute stp i env =
     (let out = execute stp (wcontext env)
      in (snd out, \<lparr>wcontext = fst out, calls = calls env @ [Execute i (snd out)]\<rparr>))"

text \<open>
  The first loop of \<^verbatim>\<open>run()\<close>, from index \<open>i\<close> on. \<open>Some r\<close> is the \<^verbatim>\<open>return r\<close> inside the
  \<^verbatim>\<open>catch\<close>; \<open>None\<close> is the loop running to its end.
\<close>

function promptLoop :: "'c WizardBase \<Rightarrow> nat \<Rightarrow> 'c world \<Rightarrow> 'c WizardResult option \<times> 'c world" where
  "promptLoop w i env =
     (if i < length (wizard_steps w) then
        (let stp = wizard_steps w ! i;
             out = call_prompt stp i env
         in (case fst out of
               Some err \<Rightarrow>
                 (if instanceof_UserCancelledError err
                  then (Some \<lparr>status = Cancelled, step = Some stp, error = Some err\<rparr>, snd out)
                  else (Some \<lparr>status = Faulted, step = Some stp, error = Some err\<rparr>, snd out))
             | None \<Rightarrow> promptLoop w (i + 1) (snd out)))
      else (None, env))"
  by pat_completeness auto
termination
  by (relation "measure (\<lambda>(w, i, env). length (wizard_steps w) - i)") auto

text \<open>
  The second loop, from index \<open>i\<close> on. The \<^verbatim>\<open>catch\<close> assigns \<^verbatim>\<open>this._result\<close> and returns
  it, so the wizard object is part of what the loop hands back.
\<close>

function executeLoop :: "'c WizardBase \<Rightarrow> nat \<Rightarrow> 'c world \<Rightarrow> 'c WizardResult option \<times> 'c WizardBase \<times> 'c world" where
  "executeLoop w i env =
     (if i < length (wizard_steps w) then
        (let stp = wizard_steps w ! i;
             out = call_execute stp i (beforeExecute stp i env)
         in (case fst out of
               Some err \<Rightarrow>
                 (let env' = onExecuteError stp i err (snd out);
                      w' = (if instanceof_UserCancelledError err
                            then w\<lparr>wizard_result := Some \<lparr>status = Cancelled, step = Some stp, error = Some err\<rparr>\<rparr>
                            else w\<lparr>wizard_result := Some \<lparr>status = Faulted, step = Some stp, error = Some err\<rparr>\<rparr>)
                  in (wizard_result w', w', env'))
             | None \<Rightarrow> executeLoop w (i + 1) (snd out)))
      else (None, w, env))"
  by pat_completeness auto
termination
  by (relation "measure (\<lambda>(w, i, env). length (wizard_steps w) - i)") auto

text \<open>\<^verbatim>\<open>this.steps[this.steps.length - 1]\<close>: \<^verbatim>\<open>undefined\<close> on the empty array.\<close>

definition last_step :: "'c WizardBase \<Rightarrow> 'c WizardStep option" where
  "last_step w =
     (if length (wizard_steps w) = 0 then None
      else Some (wizard_steps w ! (length (wizard_steps w) - 1)))"

text \<open>
  \<^verbatim>\<open>async run(): Promise<WizardResult>\<close>: the result returned, the wizard object and
  the world after the run.
\<close>

definition run :: "'c WizardBase \<Rightarrow> 'c world \<Rightarrow> 'c WizardResult \<times> 'c WizardBase \<times> 'c world" where
  "run w env =
     (case promptLoop w 0 env of
        (Some r, env1) \<Rightarrow> (r, w, env1)
      | (None, env1) \<Rightarrow>
          (case executeLoop w 0 (env1\<lparr>calls := calls env1 @ [OutputShow]\<rparr>) of
             (Some r, w2, env2) \<Rightarrow> (r, w2, env2)
           | (None, w2, env2) \<Rightarrow>
               (let w3 = w2\<lparr>wizard_result := Some \<lparr>status = Completed, step = last_step w2, error = None\<rparr>\<rparr>
                in (the (wizard_result w3), w3, env2))))"

text \<open>A run started with an empty record of calls, and its three components.\<close>

definition start :: "'c \<Rightarrow> 'c world" where
  "start c = \<lparr>wcontext = c, calls = []\<rparr>"

definition returned :: "'c WizardBase \<Rightarrow> 'c \<Rightarrow> 'c WizardResult" where
  "returned w c = fst (run w (start c))"

definition wizard_after :: "'c WizardBase \<Rightarrow> 'c \<Rightarrow> 'c WizardBase" where
  "wizard_after w c = fst (snd (run w (start c)))"

definition calls_of :: "'c WizardBase \<Rightarrow> 'c \<Rightarrow> call list" where
  "calls_of w c = calls (snd (snd (run w (start c))))"

definition context_after :: "'c WizardBase \<Rightarrow> 'c \<Rightarrow> 'c" where
  "context_after w c = wcontext (snd (snd (run w (start c))))"

subsection \<open>Vocabulary for statements about a run\<close>

text \<open>
  The calls of a stretch of the first loop where every \<^verbatim>\<open>prompt()\<close> resolved (steps
  \<open>i\<close> to \<open>k - 1\<close>), and of a stretch of the second loop where every \<^verbatim>\<open>execute()\<close>
  resolved.
\<close>

definition okPrompts :: "nat \<Rightarrow> nat \<Rightarrow> call list" where
  "okPrompts i k = map (\<lambda>j. Prompt j None) [i..<k]"

definition okExecutes :: "nat \<Rightarrow> nat \<Rightarrow> call list" where
  "okExecutes i k = concat (map (\<lambda>j. [BeforeExecute j, Execute j None]) [i..<k])"

text \<open>
  The shared state after the \<^verbatim>\<open>prompt()\<close> bodies, respectively the \<^verbatim>\<open>execute()\<close>
  bodies, of the steps \<open>ss\<close> have run one after the other, and nothing else.
\<close>

definition prompted :: "'c WizardStep list \<Rightarrow> 'c \<Rightarrow> 'c" where
  "prompted ss c = foldl (\<lambda>c s. fst (prompt s c)) c ss"

definition executed :: "'c WizardStep list \<Rightarrow> 'c \<Rightarrow> 'c" where
  "executed ss c = foldl (\<lambda>c s. fst (execute s c)) c ss"

text \<open>The result object the two \<^verbatim>\<open>catch\<close> blocks build for step \<open>stp\<close> and error \<open>err\<close>.\<close>

definition failure :: "'c WizardStep \<Rightarrow> thrown \<Rightarrow> 'c WizardResult" where
  "failure stp err =
     \<lparr>status = (if instanceof_UserCancelledError err then Cancelled else Faulted),
      step = Some stp, error = Some err\<rparr>"

text \<open>
  What the recorded calls raised: the index of the step and the thrown value, for each
  \<^verbatim>\<open>prompt()\<close> or \<^verbatim>\<open>execute()\<close> that rejected.
\<close>

fun raised_by :: "call \<Rightarrow> (nat \<times> thrown) option" where
  "raised_by (Prompt i (Some e)) = Some (i, e)"
| "raised_by (Execute i (Some e)) = Some (i, e)"
| "raised_by c = None"

definition raised :: "call list \<Rightarrow> (nat \<times> thrown) list" where
  "raised tr = List.map_filter raised_by tr"

text \<open>The step indices of the \<^verbatim>\<open>prompt()\<close> calls, and of the \<^verbatim>\<open>execute()\<close> calls, in call order.\<close>

fun prompt_index :: "call \<Rightarrow> nat option" where
  "prompt_index (Prompt i r) = Some i"
| "prompt_index c = None"

fun execute_index :: "call \<Rightarrow> nat option" where
  "execute_index (Execute i r) = Some i"
| "execute_index c = None"

definition prompts_called :: "call list \<Rightarrow> nat list" where
  "prompts_called tr = List.map_filter prompt_index tr"

definition executes_called :: "call list \<Rightarrow> nat list" where
  "executes_called tr = List.map_filter execute_index tr"

subsection \<open>Two concrete wizards\<close>

text \<open>
  A step over a shared state that is a list of strings: each body appends a line naming
  itself, then resolves (\<open>None\<close>) or rejects with the given value. The two wizards are
  the three-step scenarios: the second step's prompt is cancelled; the second step's
  execute fails with a generic error.
\<close>

definition logging_step :: "string \<Rightarrow> thrown option \<Rightarrow> thrown option \<Rightarrow> string list WizardStep" where
  "logging_step t p e =
     \<lparr>stepTitle = t,
      prompt = (\<lambda>c. (c @ [''prompt '' @ t], p)),
      execute = (\<lambda>c. (c @ [''execute '' @ t], e))\<rparr>"

definition wizard_of :: "'c WizardStep list \<Rightarrow> 'c WizardBase" where
  "wizard_of ss = \<lparr>wizard_steps = ss, wizard_result = None\<rparr>"

definition cancelled_prompt_wizard :: "string list WizardBase" where
  "cancelled_prompt_wizard =
     wizard_of [logging_step ''one'' None None,
                logging_step ''two'' (Some (UserCancelledError ''declined'')) None,
                logging_step ''three'' None None]"

definition faulted_execute_wizard :: "string list WizardBase" where
  "faulted_execute_wizard =
     wizard_of [logging_step ''one'' None None,
                logging_step ''two'' None (Some (Error ''boom'')),
                logging_step ''three'' None None]"

section \<open>The remote SSH session manager: \<^verbatim>\<open>class remoteSsh\<close>\<close>

subsection \<open>Data\<close>

text \<open>
  What the code reads of a tree node: \<^verbatim>\<open>node.root.client.fullName\<close>, the key of the
  session registry, and \<^verbatim>\<open>siteClient.isLinux\<close>.
\<close>

record SiteTreeItem =
  fullName :: string
  isLinux :: bool

text \<open>\<^verbatim>\<open>SiteConfigResource\<close>: the one field the code reads.\<close>

record SiteConfigResource =
  remoteDebuggingEnabled :: bool

record Terminal =
  name :: string
  processId :: nat

text \<open>
  \<^verbatim>\<open>new TunnelProxy(localHostPortNumber, sshPortNumber, siteClient, publishCredential)\<close>
\<close>

record TunnelProxy =
  localPort :: nat
  remotePort :: nat
  client :: string
  credential :: string

text \<open>
  What the manager does to its surroundings, recorded in order: calls to the site
  client, the port finder, the tunnel, the terminal and the output sinks, and the writes
  to its own registry.
\<close>

datatype action =
    ShowTreeItemPicker
  | RegistrySet string bool
  | GetSiteConfig string
  | GetPortPromise
  | ReportMessage string
  | SetRemoteDebug string bool
  | GetWebAppPublishCredential string
  | StartProxy TunnelProxy
  | CreateTerminal string
  | SendText nat string
  | Delay nat
  | ShowTerminal nat
  | PushSubscription nat
  | OnDidCloseTerminal nat
  | DisposeProxy TunnelProxy
  | AppendLine string
  | DisposeTerminal nat

text \<open>
  The variables the closure passed to \<^verbatim>\<open>vscode.window.onDidCloseTerminal\<close> captures:
  \<^verbatim>\<open>terminal\<close>, \<^verbatim>\<open>tunnelProxy\<close> (tested against \<^verbatim>\<open>undefined\<close>), \<^verbatim>\<open>node\<close> and
  \<^verbatim>\<open>oldSetting\<close>.
\<close>

record listener =
  l_terminal :: Terminal
  l_tunnelProxy :: "TunnelProxy option"
  l_node :: SiteTreeItem
  l_oldSetting :: bool

text \<open>
  The state the manager runs in.
  \<^item> \<open>activeSshSessions\<close>: the \<^verbatim>\<open>Map\<close> of the object. The code stores \<^verbatim>\<open>true\<close> and \<^verbatim>\<open>false\<close>
    in it; \<open>None\<close> is a key \<^verbatim>\<open>get\<close> answers with \<^verbatim>\<open>undefined\<close>.
  \<^item> \<open>siteConfigs\<close>: the configuration the service holds for each site.
  \<^item> \<open>terminals\<close>: \<^verbatim>\<open>vscode.window.terminals\<close>; \<open>nextProcessId\<close> identifies the next
    terminal created.
  \<^item> \<open>listeners\<close>: the handlers registered for the terminal-closed event.
  \<^item> \<open>freePort\<close>, \<open>publishCredential\<close>, \<open>picked\<close>: what the port finder, the site client and
    the tree item picker answer.
  \<^item> \<open>rejects\<close>: which calls to a collaborator fail, and with what.
  \<^item> \<open>trace\<close>: the actions so far.
\<close>

record state =
  activeSshSessions :: "string \<rightharpoonup> bool"
  siteConfigs :: "string \<Rightarrow> SiteConfigResource"
  terminals :: "Terminal list"
  nextProcessId :: nat
  listeners :: "listener list"
  freePort :: nat
  publishCredential :: "string \<Rightarrow> string"
  picked :: SiteTreeItem
  rejects :: "action \<Rightarrow> thrown option"
  trace :: "action list"

subsection \<open>Asynchronous code that may throw\<close>

text \<open>
  An \<^verbatim>\<open>async\<close> function is a function of the state that returns the state it leaves and
  either the value it resolves with (\<open>Inr\<close>) or the value it rejects with (\<open>Inl\<close>).
  \<open>andThen\<close> is \<^verbatim>\<open>await\<close> followed by the rest of the body: a rejection skips the rest.
\<close>

definition returns :: "'a \<Rightarrow> state \<Rightarrow> (thrown + 'a) \<times> state" where
  "returns x s = (Inr x, s)"

definition throw :: "thrown \<Rightarrow> state \<Rightarrow> (thrown + 'a) \<times> state" where
  "throw e s = (Inl e, s)"

definition andThen ::
  "(state \<Rightarrow> (thrown + 'a) \<times> state) \<Rightarrow> ('a \<Rightarrow> state \<Rightarrow> (thrown + 'b) \<times> state)
     \<Rightarrow> state \<Rightarrow> (thrown + 'b) \<times> state" where
  "andThen m f s = (case m s of (Inl e, s') \<Rightarrow> (Inl e, s') | (Inr x, s') \<Rightarrow> f x s')"

text \<open>An action that cannot fail: it is recorded.\<close>

definition record_action :: "action \<Rightarrow> state \<Rightarrow> (thrown + unit) \<times> state" where
  "record_action a s = (Inr (), s\<lparr>trace := trace s @ [a]\<rparr>)"

text \<open>
  A call to a collaborator that can fail: it is recorded, then it rejects or resolves
  as \<open>rejects\<close> says.
\<close>

definition perform :: "action \<Rightarrow> state \<Rightarrow> (thrown + unit) \<times> state" where
  "perform a s =
     (case rejects s a of
        Some e \<Rightarrow> (Inl e, s\<lparr>trace := trace s @ [a]\<rparr>)
      | None \<Rightarrow> (Inr (), s\<lparr>trace := trace s @ [a]\<rparr>))"

subsection \<open>Collaborators\<close>

text \<open>\<^verbatim>\<open>ext.tree.showTreeItemPicker(WebAppTreeItem.contextValue)\<close>\<close>

definition showTreeItemPicker :: "state \<Rightarrow> (thrown + SiteTreeItem) \<times> state" where
  "showTreeItemPicker = andThen (perform ShowTreeItemPicker) (\<lambda>_ s. (Inr (picked s), s))"

text \<open>\<^verbatim>\<open>siteClient.getSiteConfig()\<close>\<close>

definition getSiteConfig :: "string \<Rightarrow> state \<Rightarrow> (thrown + SiteConfigResource) \<times> state" where
  "getSiteConfig k = andThen (perform (GetSiteConfig k)) (\<lambda>_ s. (Inr (siteConfigs s k), s))"

text \<open>\<^verbatim>\<open>portfinder.getPortPromise()\<close>\<close>

definition getPortPromise :: "state \<Rightarrow> (thrown + nat) \<times> state" where
  "getPortPromise = andThen (perform GetPortPromise) (\<lambda>_ s. (Inr (freePort s), s))"

text \<open>\<^verbatim>\<open>siteClient.getWebAppPublishCredential()\<close>\<close>

definition getWebAppPublishCredential :: "string \<Rightarrow> state \<Rightarrow> (thrown + string) \<times> state" where
  "getWebAppPublishCredential k =
     andThen (perform (GetWebAppPublishCredential k)) (\<lambda>_ s. (Inr (publishCredential s k), s))"

text \<open>
  Modelled from the spec: \<^verbatim>\<open>remoteDebug.setRemoteDebug\<close> lives in
  \<^verbatim>\<open>remoteDebugCommon\<close>, which is not among the sources. The specification gives it as
  \<^verbatim>\<open>setRemoteDebugFlag(target, bool) -> config\<close>, a call to the configuration service
  that may fail: it sets the remote-debugging flag of the target's configuration.
\<close>

definition setRemoteDebug :: "bool \<Rightarrow> string \<Rightarrow> state \<Rightarrow> (thrown + unit) \<times> state" where
  "setRemoteDebug isRemoteDebuggingToBeEnabled k =
     andThen (perform (SetRemoteDebug k isRemoteDebuggingToBeEnabled))
       (\<lambda>_ s. (Inr (), s\<lparr>siteConfigs := (siteConfigs s)
                   (k := \<lparr>remoteDebuggingEnabled = isRemoteDebuggingToBeEnabled\<rparr>)\<rparr>))"

text \<open>
  Modelled from the spec: \<^verbatim>\<open>remoteDebug.reportMessage\<close> is in the same missing file; the
  specification has an append-only progress-reporting sink.
\<close>

definition reportMessage :: "string \<Rightarrow> state \<Rightarrow> (thrown + unit) \<times> state" where
  "reportMessage message = record_action (ReportMessage message)"

text \<open>\<^verbatim>\<open>tunnelProxy.startProxy()\<close> and \<^verbatim>\<open>tunnelProxy.dispose()\<close>\<close>

definition startProxy :: "TunnelProxy \<Rightarrow> state \<Rightarrow> (thrown + unit) \<times> state" where
  "startProxy tunnelProxy = perform (StartProxy tunnelProxy)"

definition disposeProxy :: "TunnelProxy \<Rightarrow> state \<Rightarrow> (thrown + unit) \<times> state" where
  "disposeProxy tunnelProxy = perform (DisposeProxy tunnelProxy)"

text \<open>
  \<^verbatim>\<open>vscode.window.withProgress(options, task)\<close> runs the task and settles as the task
  does. \<^verbatim>\<open>callWithTelemetryAndErrorHandling(id, callback)\<close> runs the callback; the
  callback sets \<^verbatim>\<open>rethrowError = true\<close>, so an error of the callback is thrown on.
\<close>

definition withProgress :: "(state \<Rightarrow> (thrown + 'a) \<times> state) \<Rightarrow> state \<Rightarrow> (thrown + 'a) \<times> state" where
  "withProgress task = task"

definition callWithTelemetryAndErrorHandling ::
  "string \<Rightarrow> (state \<Rightarrow> (thrown + 'a) \<times> state) \<Rightarrow> state \<Rightarrow> (thrown + 'a) \<times> state" where
  "callWithTelemetryAndErrorHandling callbackId callback = callback"

text \<open>
  The terminal API: \<^verbatim>\<open>createTerminal(name)\<close> adds a terminal to the window,
  \<^verbatim>\<open>sendText\<close>, \<^verbatim>\<open>show\<close>, \<^verbatim>\<open>ext.context.subscriptions.push\<close> and
  \<^verbatim>\<open>ext.outputChannel.appendLine\<close> are recorded, \<^verbatim>\<open>dispose()\<close> takes the terminal out of the
  window, \<^verbatim>\<open>onDidCloseTerminal(handler)\<close> registers the handler, and \<^verbatim>\<open>delay(ms)\<close> waits.
\<close>

definition createTerminal :: "string \<Rightarrow> state \<Rightarrow> (thrown + Terminal) \<times> state" where
  "createTerminal terminalName s =
     (let terminal = \<lparr>name = terminalName, processId = nextProcessId s\<rparr>
      in (Inr terminal,
          s\<lparr>terminals := terminals s @ [terminal],
            nextProcessId := nextProcessId s + 1,
            trace := trace s @ [CreateTerminal terminalName]\<rparr>))"

definition sendText :: "Terminal \<Rightarrow> string \<Rightarrow> state \<Rightarrow> (thrown + unit) \<times> state" where
  "sendText terminal text = record_action (SendText (processId terminal) text)"

definition delay :: "nat \<Rightarrow> state \<Rightarrow> (thrown + unit) \<times> state" where
  "delay ms = record_action (Delay ms)"

definition showTerminal :: "Terminal \<Rightarrow> state \<Rightarrow> (thrown + unit) \<times> state" where
  "showTerminal terminal = record_action (ShowTerminal (processId terminal))"

definition pushSubscription :: "Terminal \<Rightarrow> state \<Rightarrow> (thrown + unit) \<times> state" where
  "pushSubscription terminal = record_action (PushSubscription (processId terminal))"

definition appendLine :: "string \<Rightarrow> state \<Rightarrow> (thrown + unit) \<times> state" where
  "appendLine line = record_action (AppendLine line)"

definition onDidCloseTerminal :: "listener \<Rightarrow> state \<Rightarrow> (thrown + unit) \<times> state" where
  "onDidCloseTerminal l s =
     (Inr (), s\<lparr>listeners := listeners s @ [l],
                trace := trace s @ [OnDidCloseTerminal (processId (l_terminal l))]\<rparr>)"

definition disposeTerminal :: "Terminal \<Rightarrow> state \<Rightarrow> (thrown + unit) \<times> state" where
  "disposeTerminal terminal s =
     (Inr (), s\<lparr>terminals := filter (\<lambda>t. processId t \<noteq> processId terminal) (terminals s),
                trace := trace s @ [DisposeTerminal (processId terminal)]\<rparr>)"

subsection \<open>The registry\<close>

text \<open>
  \<^verbatim>\<open>this.activeSshSessions.set(key, value)\<close>, and the truthiness of
  \<^verbatim>\<open>this.activeSshSessions.get(key)\<close>: \<^verbatim>\<open>undefined\<close> and \<^verbatim>\<open>false\<close> are falsy.
\<close>

definition activeSshSessions_set :: "string \<Rightarrow> bool \<Rightarrow> state \<Rightarrow> (thrown + unit) \<times> state" where
  "activeSshSessions_set key v s =
     (Inr (), s\<lparr>activeSshSessions := (activeSshSessions s)(key \<mapsto> v),
                trace := trace s @ [RegistrySet key v]\<rparr>)"

fun truthy :: "bool option \<Rightarrow> bool" where
  "truthy None = False"
| "truthy (Some b) = b"

definition active :: "state \<Rightarrow> string \<Rightarrow> bool" where
  "active s key = truthy (activeSshSessions s key)"

subsection \<open>Strings the code builds\<close>

text \<open>A number inside a template literal: its decimal digits.\<close>

function toString :: "nat \<Rightarrow> string" where
  "toString n = (if n < 10 then [char_of (48 + n)] else toString (n div 10) @ [char_of (48 + n mod 10)])"
  by pat_completeness auto
termination
  by (relation "measure (\<lambda>n. n)") auto

definition alreadyStarted :: "string \<Rightarrow> string" where
  "alreadyStarted k = ''Azure Remote SSH is currently starting or already started for \"'' @ k @ ''\".''"

definition notRunning :: "string \<Rightarrow> string" where
  "notRunning k = ''Azure Remote SSH is not currently running for \"'' @ k @ ''\".''"

definition notLinux :: string where
  "notLinux = ''Azure Remote SSH is only supported for Linux web apps.''"

definition hasDisconnected :: "string \<Rightarrow> string" where
  "hasDisconnected k = ''Azure Remote SSH for \"'' @ k @ ''\" has disconnected.''"

definition sshTerminalName :: "SiteTreeItem \<Rightarrow> string" where
  "sshTerminalName node = fullName node @ '' - Remote SSH''"

definition couldNotBeFound :: "string \<Rightarrow> string" where
  "couldNotBeFound terminalName = ''Terminal \"'' @ terminalName @ ''\" could not be found.''"

text \<open>
  The message of the \<^verbatim>\<open>TypeError\<close> the engine throws when \<^verbatim>\<open>this.connectToTunnelProxy\<close>
  is called on an object that has no such property.
\<close>

definition notAFunction :: string where
  "notAFunction = ''this.connectToTunnelProxy is not a function''"

definition sshCommand :: "nat \<Rightarrow> string" where
  "sshCommand localHostPortNumber =
     ''ssh -c aes256-cbc -o StrictHostKeyChecking=no -o \"UserKnownHostsFile /dev/null\" -o \"LogLevel ERROR\" root@127.0.0.1 -p ''
       @ toString localHostPortNumber"

subsection \<open>The handler of the terminal-closed event\<close>

text \<open>
  The body of the closure given to \<^verbatim>\<open>onDidCloseTerminal\<close>, for the closed terminal \<open>e\<close>.
  It has no \<^verbatim>\<open>try\<close>: a statement that throws ends it.
\<close>

definition closeHandler :: "listener \<Rightarrow> Terminal \<Rightarrow> state \<Rightarrow> (thrown + unit) \<times> state" where
  "closeHandler l e =
     (if processId e = processId (l_terminal l) then
        andThen (case l_tunnelProxy l of
                   Some tunnelProxy \<Rightarrow> disposeProxy tunnelProxy
                 | None \<Rightarrow> returns ()) (\<lambda>_.
        andThen (activeSshSessions_set (fullName (l_node l)) False) (\<lambda>_.
        andThen (appendLine (hasDisconnected (fullName (l_node l)))) (\<lambda>_.
        setRemoteDebug (l_oldSetting l) (fullName (l_node l)))))
      else returns ())"


subsection \<open>\<^verbatim>\<open>connectToTunnelProxy\<close>, \<^verbatim>\<open>startRemoteSshInternal\<close>, \<^verbatim>\<open>startRemoteSsh\<close>\<close>

text \<open>
  The public method \<^verbatim>\<open>connectToTunnelProxy(tunnelProxy)\<close> of the manager. It reads
  \<^verbatim>\<open>node\<close>, \<^verbatim>\<open>localHostPortNumber\<close> and \<^verbatim>\<open>oldSetting\<close>, which it does not declare: the
  model takes them as arguments.
\<close>

definition connectToTunnelProxy ::
  "SiteTreeItem \<Rightarrow> nat \<Rightarrow> bool \<Rightarrow> TunnelProxy \<Rightarrow> state \<Rightarrow> (thrown + unit) \<times> state" where
  "connectToTunnelProxy node localHostPortNumber oldSetting tunnelProxy =
     andThen (createTerminal (sshTerminalName node)) (\<lambda>terminal.
     andThen (sendText terminal (sshCommand localHostPortNumber)) (\<lambda>_.
     andThen (delay 3000) (\<lambda>_.
     andThen (sendText terminal ''Docker!'') (\<lambda>_.
     andThen (showTerminal terminal) (\<lambda>_.
     andThen (pushSubscription terminal) (\<lambda>_.
     onDidCloseTerminal
       \<lparr>l_terminal = terminal, l_tunnelProxy = Some tunnelProxy,
        l_node = node, l_oldSetting = oldSetting\<rparr>))))))"

text \<open>
  The callback given to \<^verbatim>\<open>callWithTelemetryAndErrorHandling\<close> is a function expression,
  \<^verbatim>\<open>async function (this: IActionContext)\<close>: its \<^verbatim>\<open>this\<close> is the action context the
  library calls it with, the object whose \<^verbatim>\<open>rethrowError\<close> it sets, and not the manager.
  The action context has no \<^verbatim>\<open>connectToTunnelProxy\<close>, so
  \<^verbatim>\<open>this.connectToTunnelProxy(tunnelProxy)\<close> calls \<^verbatim>\<open>undefined\<close>: it throws a \<^verbatim>\<open>TypeError\<close>,
  an \<^verbatim>\<open>Error\<close> that is no \<^verbatim>\<open>UserCancelledError\<close>, and the method above is not run.
\<close>

definition this_connectToTunnelProxy :: "TunnelProxy \<Rightarrow> state \<Rightarrow> (thrown + unit) \<times> state" where
  "this_connectToTunnelProxy tunnelProxy = throw (Error notAFunction)"

definition startRemoteSshInternal :: "SiteTreeItem \<Rightarrow> state \<Rightarrow> (thrown + unit) \<times> state" where
  "startRemoteSshInternal node =
     andThen (getSiteConfig (fullName node)) (\<lambda>siteConfig.
       (let oldSetting = remoteDebuggingEnabled siteConfig in
     andThen getPortPromise (\<lambda>localHostPortNumber.
       (let sshPortNumber = 2222 in
        withProgress
          (if \<not> isLinux node then throw (Error notLinux)
           else
             andThen (reportMessage ''Checking app settings...'') (\<lambda>_.
             andThen (setRemoteDebug False (fullName node)) (\<lambda>_.
             andThen (reportMessage ''Starting SSH...'') (\<lambda>_.
             andThen (getWebAppPublishCredential (fullName node)) (\<lambda>publishCredential.
               (let tunnelProxy = \<lparr>localPort = localHostPortNumber, remotePort = sshPortNumber,
                                   client = fullName node, credential = publishCredential\<rparr>
                in callWithTelemetryAndErrorHandling ''appService.remoteSshStartProxy''
                     (andThen (startProxy tunnelProxy) (\<lambda>_.
                      this_connectToTunnelProxy tunnelProxy))))))))))))"

text \<open>
  \<^verbatim>\<open>startRemoteSsh(node?)\<close>. The \<^verbatim>\<open>catch\<close> writes \<^verbatim>\<open>false\<close> into the registry and throws
  the error on.
\<close>

definition startRemoteSsh :: "SiteTreeItem option \<Rightarrow> state \<Rightarrow> (thrown + unit) \<times> state" where
  "startRemoteSsh nodeArg =
     andThen (case nodeArg of None \<Rightarrow> showTreeItemPicker | Some n \<Rightarrow> returns n) (\<lambda>node s.
       if truthy (activeSshSessions s (fullName node))
       then throw (Error (alreadyStarted (fullName node))) s
       else
         (case andThen (activeSshSessions_set (fullName node) True)
                 (\<lambda>_. startRemoteSshInternal node) s of
            (Inl err, s') \<Rightarrow>
               andThen (activeSshSessions_set (fullName node) False) (\<lambda>_. throw err) s'
          | (Inr u, s') \<Rightarrow> (Inr u, s')))"

subsection \<open>\<^verbatim>\<open>stopRemoteSsh\<close>\<close>

text \<open>
  The \<^verbatim>\<open>for\<close> loop over \<^verbatim>\<open>vscode.window.terminals\<close>: \<open>Some\<close> is the \<^verbatim>\<open>return\<close> inside the
  loop, \<open>None\<close> the loop running to its end.
\<close>

fun disposeFirstNamed :: "string \<Rightarrow> Terminal list \<Rightarrow> state \<Rightarrow> ((thrown + unit) \<times> state) option" where
  "disposeFirstNamed terminalName [] s = None"
| "disposeFirstNamed terminalName (terminal # more_terminals) s =
     (if name terminal = terminalName then Some (disposeTerminal terminal s)
      else disposeFirstNamed terminalName more_terminals s)"

definition stopRemoteSsh :: "SiteTreeItem option \<Rightarrow> state \<Rightarrow> (thrown + unit) \<times> state" where
  "stopRemoteSsh nodeArg =
     andThen (case nodeArg of None \<Rightarrow> showTreeItemPicker | Some n \<Rightarrow> returns n) (\<lambda>node s.
       if \<not> truthy (activeSshSessions s (fullName node))
       then throw (Error (notRunning (fullName node))) s
       else
         (case disposeFirstNamed (sshTerminalName node) (terminals s) s of
            Some done \<Rightarrow> done
          | None \<Rightarrow> throw (Error (couldNotBeFound (sshTerminalName node))) s))"

subsection \<open>Vocabulary for statements about the bring-up\<close>



text \<open>
  The tunnel a start for \<open>node\<close> in state \<open>s\<close> builds, and the actions of that start
  after the registration up to the start of the tunnel, when every call resolves.
\<close>

definition tunnelFor :: "SiteTreeItem \<Rightarrow> state \<Rightarrow> TunnelProxy" where
  "tunnelFor node s =
     \<lparr>localPort = freePort s, remotePort = 2222, client = fullName node,
      credential = publishCredential s (fullName node)\<rparr>"

definition bringUp :: "SiteTreeItem \<Rightarrow> state \<Rightarrow> action list" where
  "bringUp node s =
     [GetSiteConfig (fullName node),
      GetPortPromise,
      ReportMessage ''Checking app settings...'',
      SetRemoteDebug (fullName node) False,
      ReportMessage ''Starting SSH...'',
      GetWebAppPublishCredential (fullName node),
      StartProxy (tunnelFor node s)]"

text \<open>
  The actions of \<open>connectToTunnelProxy\<close> for \<open>node\<close> and the local port, in a state
  \<open>s\<close>: the terminal is the next one created in \<open>s\<close>.
\<close>

definition connectActions :: "SiteTreeItem \<Rightarrow> nat \<Rightarrow> state \<Rightarrow> action list" where
  "connectActions node localHostPortNumber s =
     [CreateTerminal (sshTerminalName node),
      SendText (nextProcessId s) (sshCommand localHostPortNumber),
      Delay 3000,
      SendText (nextProcessId s) ''Docker!'',
      ShowTerminal (nextProcessId s),
      PushSubscription (nextProcessId s),
      OnDidCloseTerminal (nextProcessId s)]"

subsection \<open>Concrete states\<close>

text \<open>
  \<^item> \<open>app1\<close>, \<open>app1_windows\<close>: a Linux app, and the same app on Windows.
  \<^item> \<open>idle\<close>: remote debugging enabled for every site, no session, every call resolves.
  \<^item> \<open>starting\<close>: the state in which \<open>startRemoteSshInternal\<close> for \<open>app1\<close> ends, called as
    \<open>startRemoteSsh\<close> calls it from \<open>idle\<close>: the tunnel has started, the key is
    registered, remote debugging is disabled, there is no terminal. It is also the
    state another caller finds while that start awaits the tunnel.
  \<^item> \<open>connected\<close>: the state after the method \<open>connectToTunnelProxy\<close> has then been called
    on the manager for \<open>app1\<close>, the port, the setting saved and the tunnel of that start.
  \<^item> \<open>connected_bad_tunnel\<close>: \<open>connected\<close> with a tunnel whose \<^verbatim>\<open>dispose()\<close> throws.
  \<^item> \<open>app1_terminal\<close>, \<open>app1_tunnel\<close>, \<open>app1_listener\<close>: the terminal, the tunnel and the
    close handler of \<open>connected\<close>.
\<close>

definition app1 :: SiteTreeItem where
  "app1 = \<lparr>fullName = ''app1'', isLinux = True\<rparr>"

definition app1_windows :: SiteTreeItem where
  "app1_windows = \<lparr>fullName = ''app1'', isLinux = False\<rparr>"

definition idle :: state where
  "idle = \<lparr>activeSshSessions = Map.empty,
           siteConfigs = (\<lambda>_. \<lparr>remoteDebuggingEnabled = True\<rparr>),
           terminals = [], nextProcessId = 100, listeners = [],
           freePort = 8000, publishCredential = (\<lambda>_. ''secret''),
           picked = app1, rejects = (\<lambda>_. None), trace = []\<rparr>"

definition starting :: state where
  "starting = snd (startRemoteSshInternal app1 (snd (activeSshSessions_set (fullName app1) True idle)))"

definition connected :: state where
  "connected = snd (connectToTunnelProxy app1 8000 True
                      \<lparr>localPort = 8000, remotePort = 2222, client = ''app1'', credential = ''secret''\<rparr>
                      starting)"



definition app1_terminal :: Terminal where
  "app1_terminal = \<lparr>name = ''app1 - Remote SSH'', processId = 100\<rparr>"

definition app1_tunnel :: TunnelProxy where
  "app1_tunnel = \<lparr>localPort = 8000, remotePort = 2222, client = ''app1'', credential = ''secret''\<rparr>"

definition app1_listener :: listener where
  "app1_listener = \<lparr>l_terminal = app1_terminal, l_tunnelProxy = Some app1_tunnel,
                     l_node = app1, l_oldSetting = True\<rparr>"

section \<open>Properties of the wizard\<close>

subsection \<open>The two loops\<close>

lemma okPrompts_step: "i < k \<Longrightarrow> okPrompts i k = Prompt i None # okPrompts (Suc i) k"
  by (simp add: okPrompts_def upt_conv_Cons)

lemma okPrompts_same [simp]: "okPrompts i i = []"
  by (simp add: okPrompts_def)

lemma okExecutes_step: "i < k \<Longrightarrow> okExecutes i k = BeforeExecute i # Execute i None # okExecutes (Suc i) k"
  by (simp add: okExecutes_def upt_conv_Cons)

lemma okExecutes_same [simp]: "okExecutes i i = []"
  by (simp add: okExecutes_def)

declare promptLoop.simps [simp del] executeLoop.simps [simp del]

lemma promptLoop_None:
  "promptLoop w i env = (None, env') \<Longrightarrow> i \<le> length (wizard_steps w) \<Longrightarrow>
     calls env' = calls env @ okPrompts i (length (wizard_steps w)) \<and>
     wcontext env' = prompted (drop i (wizard_steps w)) (wcontext env)"
proof (induction w i env rule: promptLoop.induct)
  case (1 w i env)
  show ?case
  proof (cases "i < length (wizard_steps w)")
    case False
    with "1.prems" show ?thesis
      by (simp add: promptLoop.simps [of w i env] prompted_def)
  next
    case True
    let ?out = "call_prompt (wizard_steps w ! i) i env"
    from True "1.prems" have ok: "fst ?out = None"
      by (auto simp: promptLoop.simps [of w i env] Let_def split: option.splits if_splits)
    with True "1.prems" have rec: "promptLoop w (i + 1) (snd ?out) = (None, env')"
      by (simp add: promptLoop.simps [of w i env] Let_def)
    from "1.IH" [OF True refl refl ok rec] True
    have ih: "calls env' = calls (snd ?out) @ okPrompts (i + 1) (length (wizard_steps w))"
      "wcontext env' = prompted (drop (i + 1) (wizard_steps w)) (wcontext (snd ?out))"
      by simp_all
    from ok have c: "calls (snd ?out) = calls env @ [Prompt i None]"
      "wcontext (snd ?out) = fst (prompt (wizard_steps w ! i) (wcontext env))"
      by (simp_all add: call_prompt_def Let_def)
    from True have d: "drop i (wizard_steps w) = wizard_steps w ! i # drop (Suc i) (wizard_steps w)"
      by (simp add: Cons_nth_drop_Suc)
    show ?thesis using ih c True
      by (simp add: okPrompts_step d prompted_def)
  qed
qed

lemma promptLoop_Some:
  "promptLoop w i env = (Some r, env') \<Longrightarrow>
     \<exists>k e. i \<le> k \<and> k < length (wizard_steps w) \<and>
       calls env' = calls env @ okPrompts i k @ [Prompt k (Some e)] \<and>
       r = failure (wizard_steps w ! k) e \<and>
       prompt (wizard_steps w ! k) (prompted (take (k - i) (drop i (wizard_steps w))) (wcontext env))
         = (wcontext env', Some e)"
proof (induction w i env rule: promptLoop.induct)
  case (1 w i env)
  from "1.prems" have True: "i < length (wizard_steps w)"
    by (auto simp: promptLoop.simps [of w i env] split: if_splits)
  let ?stp = "wizard_steps w ! i"
  let ?out = "call_prompt ?stp i env"
  show ?case
  proof (cases "fst ?out")
    case (Some err)
    with True "1.prems" have r: "r = failure ?stp err" and e: "env' = snd ?out"
      by (auto simp: promptLoop.simps [of w i env] Let_def failure_def split: if_splits)
    from Some have p: "prompt ?stp (wcontext env) = (wcontext (snd ?out), Some err)"
      and c: "calls (snd ?out) = calls env @ [Prompt i (Some err)]"
      by (simp_all add: call_prompt_def Let_def prod_eq_iff)
    have "i \<le> i \<and> i < length (wizard_steps w) \<and>
       calls env' = calls env @ okPrompts i i @ [Prompt i (Some err)] \<and>
       r = failure (wizard_steps w ! i) err \<and>
       prompt (wizard_steps w ! i) (prompted (take (i - i) (drop i (wizard_steps w))) (wcontext env))
         = (wcontext env', Some err)"
      using True r e p c by (simp add: prompted_def)
    then show ?thesis by blast
  next
    case None
    with True "1.prems" have rec: "promptLoop w (i + 1) (snd ?out) = (Some r, env')"
      by (simp add: promptLoop.simps [of w i env] Let_def)
    from "1.IH" [OF True refl refl None rec]
    obtain k e where k: "i + 1 \<le> k" "k < length (wizard_steps w)"
      and tr: "calls env' = calls (snd ?out) @ okPrompts (i + 1) k @ [Prompt k (Some e)]"
      and r: "r = failure (wizard_steps w ! k) e"
      and p: "prompt (wizard_steps w ! k)
                (prompted (take (k - (i + 1)) (drop (i + 1) (wizard_steps w))) (wcontext (snd ?out)))
              = (wcontext env', Some e)"
      by blast
    from None have c: "calls (snd ?out) = calls env @ [Prompt i None]"
      "wcontext (snd ?out) = fst (prompt ?stp (wcontext env))"
      by (simp_all add: call_prompt_def Let_def)
    from True have d: "drop i (wizard_steps w) = ?stp # drop (Suc i) (wizard_steps w)"
      by (simp add: Cons_nth_drop_Suc)
    from k have t: "take (k - i) (?stp # drop (Suc i) (wizard_steps w))
        = ?stp # take (k - Suc i) (drop (Suc i) (wizard_steps w))"
    proof -
      from k have "k - i = Suc (k - Suc i)" by arith
      then show ?thesis by simp
    qed
    have "i \<le> k \<and> k < length (wizard_steps w) \<and>
       calls env' = calls env @ okPrompts i k @ [Prompt k (Some e)] \<and>
       r = failure (wizard_steps w ! k) e \<and>
       prompt (wizard_steps w ! k) (prompted (take (k - i) (drop i (wizard_steps w))) (wcontext env))
         = (wcontext env', Some e)"
      using k tr r p c by (simp add: okPrompts_step d t prompted_def)
    then show ?thesis by blast
  qed
qed

lemma executeLoop_None:
  "executeLoop w i env = (None, w', env') \<Longrightarrow> i \<le> length (wizard_steps w) \<Longrightarrow>
     calls env' = calls env @ okExecutes i (length (wizard_steps w)) \<and>
     wcontext env' = executed (drop i (wizard_steps w)) (wcontext env) \<and> w' = w"
proof (induction w i env rule: executeLoop.induct)
  case (1 w i env)
  show ?case
  proof (cases "i < length (wizard_steps w)")
    case False
    with "1.prems" show ?thesis
      by (simp add: executeLoop.simps [of w i env] executed_def)
  next
    case True
    let ?stp = "wizard_steps w ! i"
    let ?out = "call_execute ?stp i (beforeExecute ?stp i env)"
    from True "1.prems" have ok: "fst ?out = None"
      by (auto simp: executeLoop.simps [of w i env] Let_def split: option.splits if_splits)
    with True "1.prems" have rec: "executeLoop w (i + 1) (snd ?out) = (None, w', env')"
      by (simp add: executeLoop.simps [of w i env] Let_def)
    from "1.IH" [OF True refl refl ok rec] True
    have ih: "calls env' = calls (snd ?out) @ okExecutes (i + 1) (length (wizard_steps w))"
      "wcontext env' = executed (drop (i + 1) (wizard_steps w)) (wcontext (snd ?out))" "w' = w"
      by simp_all
    from ok have c: "calls (snd ?out) = calls env @ [BeforeExecute i, Execute i None]"
      "wcontext (snd ?out) = fst (execute ?stp (wcontext env))"
      by (simp_all add: call_execute_def beforeExecute_def Let_def)
    from True have d: "drop i (wizard_steps w) = ?stp # drop (Suc i) (wizard_steps w)"
      by (simp add: Cons_nth_drop_Suc)
    show ?thesis using ih c True
      by (simp add: okExecutes_step d executed_def)
  qed
qed

lemma executeLoop_Some:
  "executeLoop w i env = (Some r, w', env') \<Longrightarrow>
     \<exists>k e. i \<le> k \<and> k < length (wizard_steps w) \<and>
       calls env' = calls env @ okExecutes i k @ [BeforeExecute k, Execute k (Some e), OnExecuteError k e] \<and>
       r = failure (wizard_steps w ! k) e \<and> w' = w\<lparr>wizard_result := Some r\<rparr> \<and>
       execute (wizard_steps w ! k) (executed (take (k - i) (drop i (wizard_steps w))) (wcontext env))
         = (wcontext env', Some e)"
proof (induction w i env rule: executeLoop.induct)
  case (1 w i env)
  from "1.prems" have True: "i < length (wizard_steps w)"
    by (auto simp: executeLoop.simps [of w i env] split: if_splits)
  let ?stp = "wizard_steps w ! i"
  let ?out = "call_execute ?stp i (beforeExecute ?stp i env)"
  show ?case
  proof (cases "fst ?out")
    case (Some err)
    with True "1.prems" have r: "r = failure ?stp err" and e: "env' = onExecuteError ?stp i err (snd ?out)"
      and w: "w' = w\<lparr>wizard_result := Some r\<rparr>"
      by (auto simp: executeLoop.simps [of w i env] Let_def failure_def split: if_splits)
    from Some have p: "execute ?stp (wcontext env) = (wcontext (snd ?out), Some err)"
      and c: "calls (snd ?out) = calls env @ [BeforeExecute i, Execute i (Some err)]"
      by (simp_all add: call_execute_def beforeExecute_def Let_def prod_eq_iff)
    have "i \<le> i \<and> i < length (wizard_steps w) \<and>
       calls env' = calls env @ okExecutes i i @ [BeforeExecute i, Execute i (Some err), OnExecuteError i err] \<and>
       r = failure (wizard_steps w ! i) err \<and> w' = w\<lparr>wizard_result := Some r\<rparr> \<and>
       execute (wizard_steps w ! i) (executed (take (i - i) (drop i (wizard_steps w))) (wcontext env))
         = (wcontext env', Some err)"
      using True r e p c w by (simp add: executed_def onExecuteError_def)
    then show ?thesis by blast
  next
    case None
    with True "1.prems" have rec: "executeLoop w (i + 1) (snd ?out) = (Some r, w', env')"
      by (simp add: executeLoop.simps [of w i env] Let_def)
    from "1.IH" [OF True refl refl None rec]
    obtain k e where k: "i + 1 \<le> k" "k < length (wizard_steps w)"
      and tr: "calls env' = calls (snd ?out) @ okExecutes (i + 1) k @ [BeforeExecute k, Execute k (Some e), OnExecuteError k e]"
      and r: "r = failure (wizard_steps w ! k) e" and w: "w' = w\<lparr>wizard_result := Some r\<rparr>"
      and p: "execute (wizard_steps w ! k)
                (executed (take (k - (i + 1)) (drop (i + 1) (wizard_steps w))) (wcontext (snd ?out)))
              = (wcontext env', Some e)"
      by blast
    from None have c: "calls (snd ?out) = calls env @ [BeforeExecute i, Execute i None]"
      "wcontext (snd ?out) = fst (execute ?stp (wcontext env))"
      by (simp_all add: call_execute_def beforeExecute_def Let_def)
    from True have d: "drop i (wizard_steps w) = ?stp # drop (Suc i) (wizard_steps w)"
      by (simp add: Cons_nth_drop_Suc)
    from k have t: "take (k - i) (?stp # drop (Suc i) (wizard_steps w))
        = ?stp # take (k - Suc i) (drop (Suc i) (wizard_steps w))"
    proof -
      from k have "k - i = Suc (k - Suc i)" by arith
      then show ?thesis by simp
    qed
    have "i \<le> k \<and> k < length (wizard_steps w) \<and>
       calls env' = calls env @ okExecutes i k @ [BeforeExecute k, Execute k (Some e), OnExecuteError k e] \<and>
       r = failure (wizard_steps w ! k) e \<and> w' = w\<lparr>wizard_result := Some r\<rparr> \<and>
       execute (wizard_steps w ! k) (executed (take (k - i) (drop i (wizard_steps w))) (wcontext env))
         = (wcontext env', Some e)"
      using k tr r p c w by (simp add: okExecutes_step d t executed_def)
    then show ?thesis by blast
  qed
qed

subsection \<open>The three courses of a run\<close>

text \<open>
  A run ends in one of three ways: some \<^verbatim>\<open>prompt()\<close> rejected; every prompt resolved and
  some \<^verbatim>\<open>execute()\<close> rejected; or every call resolved. Each fixes the calls made, the
  result returned, the wizard object and the shared state.
\<close>

lemma run_cases:
  fixes w :: "'c WizardBase" and c :: 'c
  defines "n \<equiv> length (wizard_steps w)"
  shows
   "(\<exists>k e. k < n \<and> calls_of w c = okPrompts 0 k @ [Prompt k (Some e)] \<and>
       returned w c = failure (wizard_steps w ! k) e \<and> wizard_after w c = w \<and>
       prompt (wizard_steps w ! k) (prompted (take k (wizard_steps w)) c) = (context_after w c, Some e))
  \<or> (\<exists>k e. k < n \<and>
       calls_of w c = okPrompts 0 n @ OutputShow # okExecutes 0 k
                        @ [BeforeExecute k, Execute k (Some e), OnExecuteError k e] \<and>
       returned w c = failure (wizard_steps w ! k) e \<and>
       wizard_after w c = w\<lparr>wizard_result := Some (returned w c)\<rparr> \<and>
       execute (wizard_steps w ! k) (executed (take k (wizard_steps w)) (prompted (wizard_steps w) c))
         = (context_after w c, Some e))
  \<or> (calls_of w c = okPrompts 0 n @ OutputShow # okExecutes 0 n \<and>
       returned w c = \<lparr>status = Completed, step = last_step w, error = None\<rparr> \<and>
       wizard_after w c = w\<lparr>wizard_result := Some (returned w c)\<rparr> \<and>
       context_after w c = executed (wizard_steps w) (prompted (wizard_steps w) c))"
proof (cases "promptLoop w 0 (start c)")
  case (Pair ro env1)
  show ?thesis
  proof (cases ro)
    case (Some r)
    from promptLoop_Some [of w 0 "start c" r env1] Pair Some
    obtain k e where "k < n" "calls env1 = okPrompts 0 k @ [Prompt k (Some e)]"
      "r = failure (wizard_steps w ! k) e"
      "prompt (wizard_steps w ! k) (prompted (take k (wizard_steps w)) c) = (wcontext env1, Some e)"
      by (auto simp: start_def n_def)
    moreover from Pair Some have "run w (start c) = (r, w, env1)"
      by (simp add: run_def)
    ultimately show ?thesis
      by (simp add: calls_of_def returned_def wizard_after_def context_after_def)
  next
    case None
    from promptLoop_None [of w 0 "start c" env1] Pair None
    have p: "calls env1 = okPrompts 0 n" "wcontext env1 = prompted (wizard_steps w) c"
      by (simp_all add: start_def n_def)
    let ?env = "env1\<lparr>calls := calls env1 @ [OutputShow]\<rparr>"
    show ?thesis
    proof (cases "executeLoop w 0 ?env")
      case (fields ro2 w2 env2)
      show ?thesis
      proof (cases ro2)
        case (Some r)
        from executeLoop_Some [of w 0 ?env r w2 env2] fields Some
        obtain k e where "k < n"
          "calls env2 = calls ?env @ okExecutes 0 k @ [BeforeExecute k, Execute k (Some e), OnExecuteError k e]"
          "r = failure (wizard_steps w ! k) e" "w2 = w\<lparr>wizard_result := Some r\<rparr>"
          "execute (wizard_steps w ! k) (executed (take k (wizard_steps w)) (wcontext ?env))
             = (wcontext env2, Some e)"
          by (auto simp: n_def)
        moreover from Pair None fields Some have "run w (start c) = (r, w2, env2)"
          by (simp add: run_def)
        ultimately have "k < n \<and>
           calls_of w c = okPrompts 0 n @ OutputShow # okExecutes 0 k
                        @ [BeforeExecute k, Execute k (Some e), OnExecuteError k e] \<and>
           returned w c = failure (wizard_steps w ! k) e \<and>
           wizard_after w c = w\<lparr>wizard_result := Some (returned w c)\<rparr> \<and>
           execute (wizard_steps w ! k) (executed (take k (wizard_steps w)) (prompted (wizard_steps w) c))
             = (context_after w c, Some e)"
          using p by (simp add: calls_of_def returned_def wizard_after_def context_after_def)
        then show ?thesis by blast
      next
        case None2: None
        from executeLoop_None [of w 0 ?env w2 env2] fields None2
        have e: "calls env2 = calls ?env @ okExecutes 0 n"
          "wcontext env2 = executed (wizard_steps w) (wcontext ?env)" "w2 = w"
          by (simp_all add: n_def)
        from Pair None fields None2 e
        have "run w (start c) =
           (\<lparr>status = Completed, step = last_step w, error = None\<rparr>,
            w\<lparr>wizard_result := Some \<lparr>status = Completed, step = last_step w, error = None\<rparr>\<rparr>, env2)"
          by (simp add: run_def Let_def last_step_def)
        with e p show ?thesis
          by (simp add: calls_of_def returned_def wizard_after_def context_after_def)
      qed
    qed
  qed
qed

lemma in_okPrompts: "x \<in> set (okPrompts i k) \<longleftrightarrow> (\<exists>j. i \<le> j \<and> j < k \<and> x = Prompt j None)"
  by (auto simp: okPrompts_def)

lemma in_okExecutes:
  "x \<in> set (okExecutes i k) \<longleftrightarrow> (\<exists>j. i \<le> j \<and> j < k \<and> (x = BeforeExecute j \<or> x = Execute j None))"
  by (auto simp: okExecutes_def)

lemma raised_append: "raised (xs @ ys) = raised xs @ raised ys"
  by (simp add: raised_def map_filter_def)

lemma raised_Cons: "raised (x # xs) = (case raised_by x of None \<Rightarrow> raised xs | Some r \<Rightarrow> r # raised xs)"
  by (simp add: raised_def map_filter_def split: option.splits)

lemma raised_Nil: "raised [] = []"
  by (simp add: raised_def map_filter_def)

lemma raised_okPrompts: "raised (okPrompts i k) = []"
  by (simp add: raised_def okPrompts_def map_filter_def filter_empty_conv)

lemma raised_okExecutes: "raised (okExecutes i k) = []"
  by (simp add: raised_def okExecutes_def map_filter_def filter_empty_conv)

lemmas raised_simps = raised_append raised_Cons raised_Nil raised_okPrompts raised_okExecutes

lemma last_step_last: "wizard_steps w \<noteq> [] \<Longrightarrow> last_step w = Some (last (wizard_steps w))"
  by (simp add: last_step_def last_conv_nth)

subsection \<open>Status of the result\<close>

text \<open>
  Claim C2. \<open>run\<close> is a total function, so a run returns exactly one result. Its status is
  \<open>Cancelled\<close> exactly when a call of \<^verbatim>\<open>prompt()\<close> or \<^verbatim>\<open>execute()\<close> of the run raised a
  \<^verbatim>\<open>UserCancelledError\<close>, \<open>Faulted\<close> exactly when one raised anything else, and \<open>Completed\<close>
  exactly when none raised. At most one call raises; the result then carries the step
  whose call raised and the value raised. On completion it carries what
  \<^verbatim>\<open>steps[steps.length - 1]\<close> reads: the last step, when there is one.
\<close>

theorem run_status:
  "(status (returned w c) = Cancelled \<longleftrightarrow>
      (\<exists>x \<in> set (raised (calls_of w c)). instanceof_UserCancelledError (snd x))) \<and>
   (status (returned w c) = Faulted \<longleftrightarrow>
      (\<exists>x \<in> set (raised (calls_of w c)). \<not> instanceof_UserCancelledError (snd x))) \<and>
   (status (returned w c) = Completed \<longleftrightarrow> raised (calls_of w c) = []) \<and>
   (case raised (calls_of w c) of
      [] \<Rightarrow> returned w c = \<lparr>status = Completed, step = last_step w, error = None\<rparr>
    | x # rest \<Rightarrow> rest = [] \<and> fst x < length (wizard_steps w) \<and>
        step (returned w c) = Some (wizard_steps w ! fst x) \<and> error (returned w c) = Some (snd x)) \<and>
   (wizard_steps w \<noteq> [] \<longrightarrow> last_step w = Some (last (wizard_steps w)))"
proof -
  consider
    (prompt_failed) k e where "k < length (wizard_steps w)"
      "calls_of w c = okPrompts 0 k @ [Prompt k (Some e)]"
      "returned w c = failure (wizard_steps w ! k) e"
  | (execute_failed) k e where "k < length (wizard_steps w)"
      "calls_of w c = okPrompts 0 (length (wizard_steps w)) @ OutputShow # okExecutes 0 k
                        @ [BeforeExecute k, Execute k (Some e), OnExecuteError k e]"
      "returned w c = failure (wizard_steps w ! k) e"
  | (finished) "calls_of w c = okPrompts 0 (length (wizard_steps w)) @ OutputShow
                        # okExecutes 0 (length (wizard_steps w))"
      "returned w c = \<lparr>status = Completed, step = last_step w, error = None\<rparr>"
    using run_cases [of w c] by blast
  then have main:
    "(status (returned w c) = Cancelled \<longleftrightarrow>
      (\<exists>x \<in> set (raised (calls_of w c)). instanceof_UserCancelledError (snd x))) \<and>
   (status (returned w c) = Faulted \<longleftrightarrow>
      (\<exists>x \<in> set (raised (calls_of w c)). \<not> instanceof_UserCancelledError (snd x))) \<and>
   (status (returned w c) = Completed \<longleftrightarrow> raised (calls_of w c) = []) \<and>
   (case raised (calls_of w c) of
      [] \<Rightarrow> returned w c = \<lparr>status = Completed, step = last_step w, error = None\<rparr>
    | x # rest \<Rightarrow> rest = [] \<and> fst x < length (wizard_steps w) \<and>
        step (returned w c) = Some (wizard_steps w ! fst x) \<and> error (returned w c) = Some (snd x))"
  proof cases
    case prompt_failed
    then show ?thesis by (simp add: raised_simps failure_def)
  next
    case execute_failed
    then show ?thesis by (simp add: raised_simps failure_def)
  next
    case finished
    then show ?thesis by (simp add: raised_simps)
  qed
  show ?thesis using main last_step_last [of w] by blast
qed

lemmas run_eval = returned_def calls_of_def wizard_after_def context_after_def run_def start_def
  promptLoop.simps executeLoop.simps call_prompt_def call_execute_def beforeExecute_def
  onExecuteError_def last_step_def Let_def wizard_of_def logging_step_def

lemma cancelled_prompt_calls:
  "calls_of cancelled_prompt_wizard [] = [Prompt 0 None, Prompt 1 (Some (UserCancelledError ''declined''))]"
  by (simp add: run_eval cancelled_prompt_wizard_def)

theorem run_status_witness:
  "status (returned cancelled_prompt_wizard []) = Cancelled \<and>
   raised (calls_of cancelled_prompt_wizard []) = [(1, UserCancelledError ''declined'')] \<and>
   step (returned cancelled_prompt_wizard []) = Some (logging_step ''two'' (Some (UserCancelledError ''declined'')) None) \<and>
   wizard_steps cancelled_prompt_wizard \<noteq> [] \<and>
   last_step cancelled_prompt_wizard = Some (logging_step ''three'' None None)"
proof -
  have r: "raised (calls_of cancelled_prompt_wizard []) = [(1, UserCancelledError ''declined'')]"
    by (simp add: cancelled_prompt_calls raised_simps)
  have s: "wizard_steps cancelled_prompt_wizard =
      [logging_step ''one'' None None,
       logging_step ''two'' (Some (UserCancelledError ''declined'')) None,
       logging_step ''three'' None None]"
    by (simp add: cancelled_prompt_wizard_def wizard_of_def)
  show ?thesis
    using run_status [of cancelled_prompt_wizard "[]"] by (simp add: r s)
qed

subsection \<open>Order of the calls\<close>

lemma okPrompts_snoc: "i \<le> k \<Longrightarrow> okPrompts i (Suc k) = okPrompts i k @ [Prompt k None]"
  by (simp add: okPrompts_def)

lemma okExecutes_snoc: "i \<le> k \<Longrightarrow> okExecutes i (Suc k) = okExecutes i k @ [BeforeExecute k, Execute k None]"
  by (simp add: okExecutes_def)

lemma prompts_called_append: "prompts_called (xs @ ys) = prompts_called xs @ prompts_called ys"
  by (simp add: prompts_called_def map_filter_def)

lemma prompts_called_Cons:
  "prompts_called (x # xs) = (case prompt_index x of None \<Rightarrow> prompts_called xs | Some i \<Rightarrow> i # prompts_called xs)"
  by (simp add: prompts_called_def map_filter_def split: option.splits)

lemma prompts_called_Nil: "prompts_called [] = []"
  by (simp add: prompts_called_def map_filter_def)

lemma prompts_called_okPrompts: "prompts_called (okPrompts 0 k) = [0..<k]"
  by (induction k) (simp_all add: okPrompts_snoc prompts_called_append prompts_called_Cons prompts_called_Nil)

lemma prompts_called_okExecutes: "prompts_called (okExecutes 0 k) = []"
  by (induction k) (simp_all add: okExecutes_snoc prompts_called_append prompts_called_Cons prompts_called_Nil)

lemmas prompts_called_simps = prompts_called_append prompts_called_Cons prompts_called_Nil
  prompts_called_okPrompts prompts_called_okExecutes

lemma executes_called_append: "executes_called (xs @ ys) = executes_called xs @ executes_called ys"
  by (simp add: executes_called_def map_filter_def)

lemma executes_called_Cons:
  "executes_called (x # xs) = (case execute_index x of None \<Rightarrow> executes_called xs | Some i \<Rightarrow> i # executes_called xs)"
  by (simp add: executes_called_def map_filter_def split: option.splits)

lemma executes_called_Nil: "executes_called [] = []"
  by (simp add: executes_called_def map_filter_def)

lemma executes_called_okPrompts: "executes_called (okPrompts 0 k) = []"
  by (induction k) (simp_all add: okPrompts_snoc executes_called_append executes_called_Cons executes_called_Nil)

lemma executes_called_okExecutes: "executes_called (okExecutes 0 k) = [0..<k]"
  by (induction k) (simp_all add: okExecutes_snoc executes_called_append executes_called_Cons executes_called_Nil)

lemmas executes_called_simps = executes_called_append executes_called_Cons executes_called_Nil
  executes_called_okPrompts executes_called_okExecutes

lemma length_okPrompts: "length (okPrompts 0 k) = k"
  by (simp add: okPrompts_def)

text \<open>
  Claim C3. The \<^verbatim>\<open>prompt()\<close> calls of a run are those of steps \<open>0, 1, 2, ...\<close> in that
  order, and so are the \<^verbatim>\<open>execute()\<close> calls. If \<^verbatim>\<open>execute()\<close> of any step \<open>i\<close> is called,
  then the first \<open>n\<close> calls of the run are the resolved prompts of all \<open>n\<close> steps, no
  prompt is called after them and no prompt raised. So a prompt that raises, by
  cancellation or otherwise, leaves the run without any \<^verbatim>\<open>execute()\<close> call.
\<close>

theorem run_order:
  "prompts_called (calls_of w c) = [0..<length (prompts_called (calls_of w c))] \<and>
   executes_called (calls_of w c) = [0..<length (executes_called (calls_of w c))] \<and>
   (\<forall>i r. Execute i r \<in> set (calls_of w c) \<longrightarrow>
      i < length (wizard_steps w) \<and>
      take (length (wizard_steps w)) (calls_of w c) = okPrompts 0 (length (wizard_steps w)) \<and>
      prompts_called (drop (length (wizard_steps w)) (calls_of w c)) = [] \<and>
      (\<forall>j e. Prompt j (Some e) \<notin> set (calls_of w c))) \<and>
   (\<forall>j e. Prompt j (Some e) \<in> set (calls_of w c) \<longrightarrow> executes_called (calls_of w c) = [])"
proof -
  let ?n = "length (wizard_steps w)"
  consider
    (prompt_failed) k e where "k < ?n" "calls_of w c = okPrompts 0 k @ [Prompt k (Some e)]"
  | (execute_failed) k e where "k < ?n"
      "calls_of w c = okPrompts 0 ?n @ OutputShow # okExecutes 0 k
                        @ [BeforeExecute k, Execute k (Some e), OnExecuteError k e]"
  | (finished) "calls_of w c = okPrompts 0 ?n @ OutputShow # okExecutes 0 ?n"
    using run_cases [of w c] by blast
  then show ?thesis
  proof cases
    case prompt_failed
    then show ?thesis
      by (simp add: prompts_called_simps executes_called_simps in_okPrompts)
  next
    case execute_failed
    have "prompts_called (calls_of w c) = [0..<?n]"
      "executes_called (calls_of w c) = [0..<Suc k]"
      "take ?n (calls_of w c) = okPrompts 0 ?n"
      "prompts_called (drop ?n (calls_of w c)) = []"
      by (simp_all add: execute_failed(2) prompts_called_simps executes_called_simps
          length_okPrompts)
    moreover have "\<forall>i r. Execute i r \<in> set (calls_of w c) \<longrightarrow> i < ?n"
      using execute_failed(1) by (auto simp: execute_failed(2) in_okPrompts in_okExecutes)
    moreover have "\<forall>j e. Prompt j (Some e) \<notin> set (calls_of w c)"
      by (auto simp: execute_failed(2) in_okPrompts in_okExecutes)
    ultimately show ?thesis by simp
  next
    case finished
    have "prompts_called (calls_of w c) = [0..<?n]"
      "executes_called (calls_of w c) = [0..<?n]"
      "take ?n (calls_of w c) = okPrompts 0 ?n"
      "prompts_called (drop ?n (calls_of w c)) = []"
      by (simp_all add: finished prompts_called_simps executes_called_simps
          length_okPrompts)
    moreover have "\<forall>i r. Execute i r \<in> set (calls_of w c) \<longrightarrow> i < ?n"
      by (auto simp: finished in_okPrompts in_okExecutes)
    moreover have "\<forall>j e. Prompt j (Some e) \<notin> set (calls_of w c)"
      by (auto simp: finished in_okPrompts in_okExecutes)
    ultimately show ?thesis by simp
  qed
qed

lemma faulted_execute_calls:
  "calls_of faulted_execute_wizard [] =
     [Prompt 0 None, Prompt 1 None, Prompt 2 None, OutputShow,
      BeforeExecute 0, Execute 0 None,
      BeforeExecute 1, Execute 1 (Some (Error ''boom'')), OnExecuteError 1 (Error ''boom'')]"
  by (simp add: run_eval faulted_execute_wizard_def)

theorem run_order_witness:
  "Execute 1 (Some (Error ''boom'')) \<in> set (calls_of faulted_execute_wizard []) \<and>
   take 3 (calls_of faulted_execute_wizard []) = [Prompt 0 None, Prompt 1 None, Prompt 2 None] \<and>
   prompts_called (calls_of faulted_execute_wizard []) = [0, 1, 2] \<and>
   executes_called (calls_of faulted_execute_wizard []) = [0, 1] \<and>
   Prompt 1 (Some (UserCancelledError ''declined'')) \<in> set (calls_of cancelled_prompt_wizard []) \<and>
   executes_called (calls_of cancelled_prompt_wizard []) = []"
proof -
  have m: "Execute 1 (Some (Error ''boom'')) \<in> set (calls_of faulted_execute_wizard [])"
    by (simp add: faulted_execute_calls)
  have n: "length (wizard_steps faulted_execute_wizard) = 3"
    by (simp add: faulted_execute_wizard_def wizard_of_def)
  have p: "Prompt 1 (Some (UserCancelledError ''declined'')) \<in> set (calls_of cancelled_prompt_wizard [])"
    by (simp add: cancelled_prompt_calls)
  have a: "take 3 (calls_of faulted_execute_wizard []) = okPrompts 0 3"
    using run_order [of faulted_execute_wizard "[]"] m n by auto
  have b: "executes_called (calls_of cancelled_prompt_wizard []) = []"
    using run_order [of cancelled_prompt_wizard "[]"] p by blast
  have c: "okPrompts 0 3 = [Prompt 0 None, Prompt 1 None, Prompt 2 None]"
    by (simp add: okPrompts_def upt_rec)
  have d: "prompts_called (calls_of faulted_execute_wizard []) = [0, 1, 2]"
    "executes_called (calls_of faulted_execute_wizard []) = [0, 1]"
    by (simp_all add: faulted_execute_calls prompts_called_simps executes_called_simps)
  show ?thesis using m p a b c d by simp
qed

subsection \<open>A generic error during execute\<close>

text \<open>
  Claim C4. In a run where \<^verbatim>\<open>execute()\<close> of step \<open>i\<close> raises a generic error (so every
  prompt has resolved, by the order of the calls), the result is \<open>Faulted\<close> with step \<open>i\<close>
  and that error; the calls are the resolved prompts, the \<^verbatim>\<open>execute()\<close> calls of the
  steps before \<open>i\<close>, the failing call and the \<^verbatim>\<open>onExecuteError\<close> hook, so no step after
  \<open>i\<close> is executed; and the shared state is what the prompts, the executes of the steps
  before \<open>i\<close> and the failing body of step \<open>i\<close> left, with nothing undone.
\<close>

theorem execute_fault:
  assumes "Execute i (Some (Error m)) \<in> set (calls_of w c)"
  shows "i < length (wizard_steps w) \<and>
     returned w c = \<lparr>status = Faulted, step = Some (wizard_steps w ! i), error = Some (Error m)\<rparr> \<and>
     calls_of w c = okPrompts 0 (length (wizard_steps w)) @ OutputShow # okExecutes 0 i
                      @ [BeforeExecute i, Execute i (Some (Error m)), OnExecuteError i (Error m)] \<and>
     (\<forall>j r. Execute j r \<in> set (calls_of w c) \<longrightarrow> j \<le> i) \<and>
     context_after w c =
       fst (execute (wizard_steps w ! i)
              (executed (take i (wizard_steps w)) (prompted (wizard_steps w) c)))"
proof -
  let ?n = "length (wizard_steps w)"
  consider
    (prompt_failed) k e where "calls_of w c = okPrompts 0 k @ [Prompt k (Some e)]"
  | (execute_failed) k e where "k < ?n"
      "calls_of w c = okPrompts 0 ?n @ OutputShow # okExecutes 0 k
                        @ [BeforeExecute k, Execute k (Some e), OnExecuteError k e]"
      "returned w c = failure (wizard_steps w ! k) e"
      "execute (wizard_steps w ! k) (executed (take k (wizard_steps w)) (prompted (wizard_steps w) c))
         = (context_after w c, Some e)"
  | (finished) "calls_of w c = okPrompts 0 ?n @ OutputShow # okExecutes 0 ?n"
    using run_cases [of w c] by blast
  then show ?thesis
  proof cases
    case prompt_failed
    with assms show ?thesis by (auto simp: in_okPrompts)
  next
    case finished
    with assms show ?thesis by (auto simp: in_okPrompts in_okExecutes)
  next
    case execute_failed
    from assms have ke: "k = i" "e = Error m"
      by (auto simp: execute_failed(2) in_okPrompts in_okExecutes)
    have "\<forall>j r. Execute j r \<in> set (calls_of w c) \<longrightarrow> j \<le> i"
      by (auto simp: execute_failed(2) ke in_okPrompts in_okExecutes)
    then show ?thesis
      using execute_failed ke by (simp add: failure_def)
  qed
qed

theorem execute_fault_witness:
  "Execute 1 (Some (Error ''boom'')) \<in> set (calls_of faulted_execute_wizard []) \<and>
   returned faulted_execute_wizard [] =
     \<lparr>status = Faulted, step = Some (logging_step ''two'' None (Some (Error ''boom''))),
      error = Some (Error ''boom'')\<rparr> \<and>
   context_after faulted_execute_wizard [] =
     [''prompt one'', ''prompt two'', ''prompt three'', ''execute one'', ''execute two'']"
proof -
  have m: "Execute 1 (Some (Error ''boom'')) \<in> set (calls_of faulted_execute_wizard [])"
    by (simp add: faulted_execute_calls)
  have s: "wizard_steps faulted_execute_wizard =
      [logging_step ''one'' None None,
       logging_step ''two'' None (Some (Error ''boom'')),
       logging_step ''three'' None None]"
    by (simp add: faulted_execute_wizard_def wizard_of_def)
  have x: "fst (execute (wizard_steps faulted_execute_wizard ! 1)
              (executed (take 1 (wizard_steps faulted_execute_wizard))
                 (prompted (wizard_steps faulted_execute_wizard) [])))
      = [''prompt one'', ''prompt two'', ''prompt three'', ''execute one'', ''execute two'']"
    by (simp add: s executed_def prompted_def logging_step_def)
  show ?thesis
    using execute_fault [OF m] m x by (simp add: s)
qed

subsection \<open>Retention of the result on the wizard object\<close>

text \<open>
  Claim C9. When a prompt raised, the wizard object after the run is the one before it:
  the result is returned and \<^verbatim>\<open>_result\<close> keeps its old value. In every other run
  \<^verbatim>\<open>_result\<close> holds the result returned, and nothing else of the object has changed. The
  step list is the same after every run.
\<close>

theorem result_retention:
  "(if \<exists>j e. Prompt j (Some e) \<in> set (calls_of w c)
    then wizard_after w c = w
    else wizard_after w c = w\<lparr>wizard_result := Some (returned w c)\<rparr>) \<and>
   wizard_steps (wizard_after w c) = wizard_steps w"
proof -
  let ?n = "length (wizard_steps w)"
  consider
    (prompt_failed) k e where "calls_of w c = okPrompts 0 k @ [Prompt k (Some e)]"
      "wizard_after w c = w"
  | (execute_failed) k e where
      "calls_of w c = okPrompts 0 ?n @ OutputShow # okExecutes 0 k
                        @ [BeforeExecute k, Execute k (Some e), OnExecuteError k e]"
      "wizard_after w c = w\<lparr>wizard_result := Some (returned w c)\<rparr>"
  | (finished) "calls_of w c = okPrompts 0 ?n @ OutputShow # okExecutes 0 ?n"
      "wizard_after w c = w\<lparr>wizard_result := Some (returned w c)\<rparr>"
    using run_cases [of w c] by blast
  then show ?thesis
  proof cases
    case prompt_failed
    have "\<exists>j e. Prompt j (Some e) \<in> set (calls_of w c)"
      by (auto simp: prompt_failed(1))
    then show ?thesis using prompt_failed(2) by simp
  next
    case execute_failed
    have "\<not> (\<exists>j e. Prompt j (Some e) \<in> set (calls_of w c))"
      by (auto simp: execute_failed(1) in_okPrompts in_okExecutes)
    then show ?thesis using execute_failed(2) by simp
  next
    case finished
    have "\<not> (\<exists>j e. Prompt j (Some e) \<in> set (calls_of w c))"
      by (auto simp: finished(1) in_okPrompts in_okExecutes)
    then show ?thesis using finished(2) by simp
  qed
qed

theorem result_retention_witness:
  "wizard_result (wizard_after cancelled_prompt_wizard []) = None \<and>
   status (returned cancelled_prompt_wizard []) = Cancelled \<and>
   wizard_result (wizard_after faulted_execute_wizard []) = Some (returned faulted_execute_wizard []) \<and>
   status (returned faulted_execute_wizard []) = Faulted"
proof -
  have p: "\<exists>j e. Prompt j (Some e) \<in> set (calls_of cancelled_prompt_wizard [])"
    by (simp add: cancelled_prompt_calls)
  have q: "\<not> (\<exists>j e. Prompt j (Some e) \<in> set (calls_of faulted_execute_wizard []))"
    by (simp add: faulted_execute_calls)
  have a: "wizard_after cancelled_prompt_wizard [] = cancelled_prompt_wizard"
    using result_retention [of cancelled_prompt_wizard "[]"] p by simp
  have b: "wizard_after faulted_execute_wizard [] =
      faulted_execute_wizard\<lparr>wizard_result := Some (returned faulted_execute_wizard [])\<rparr>"
    using result_retention [of faulted_execute_wizard "[]"] q by simp
  have c: "status (returned cancelled_prompt_wizard []) = Cancelled"
    by (simp add: run_eval cancelled_prompt_wizard_def)
  have d: "status (returned faulted_execute_wizard []) = Faulted"
    by (simp add: run_eval faulted_execute_wizard_def)
  show ?thesis
    by (simp add: a b c d) (simp add: cancelled_prompt_wizard_def wizard_of_def)
qed

section \<open>Properties of the session manager\<close>

subsection \<open>Unfolding the operations\<close>

lemmas ssh_prims = returns_def throw_def perform_def record_action_def showTreeItemPicker_def
  getSiteConfig_def getPortPromise_def getWebAppPublishCredential_def setRemoteDebug_def
  reportMessage_def startProxy_def disposeProxy_def withProgress_def
  callWithTelemetryAndErrorHandling_def createTerminal_def sendText_def delay_def
  showTerminal_def pushSubscription_def appendLine_def onDidCloseTerminal_def
  disposeTerminal_def activeSshSessions_set_def

lemma startRemoteSsh_Some:
  "startRemoteSsh (Some node) s =
     (if truthy (activeSshSessions s (fullName node))
      then (Inl (Error (alreadyStarted (fullName node))), s)
      else
        (case startRemoteSshInternal node
                (s\<lparr>activeSshSessions := (activeSshSessions s)(fullName node \<mapsto> True),
                   trace := trace s @ [RegistrySet (fullName node) True]\<rparr>) of
           (Inl err, s') \<Rightarrow>
              (Inl err, s'\<lparr>activeSshSessions := (activeSshSessions s')(fullName node \<mapsto> False),
                          trace := trace s' @ [RegistrySet (fullName node) False]\<rparr>)
         | (Inr u, s') \<Rightarrow> (Inr u, s')))"
  by (simp add: startRemoteSsh_def andThen_def returns_def throw_def activeSshSessions_set_def
      split: prod.splits sum.splits)

lemma startRemoteSsh_None:
  "startRemoteSsh None s =
     (case rejects s ShowTreeItemPicker of
        Some e \<Rightarrow> (Inl e, s\<lparr>trace := trace s @ [ShowTreeItemPicker]\<rparr>)
      | None \<Rightarrow> startRemoteSsh (Some (picked s)) (s\<lparr>trace := trace s @ [ShowTreeItemPicker]\<rparr>))"
  by (simp add: startRemoteSsh_def andThen_def returns_def perform_def showTreeItemPicker_def
      split: option.splits)

lemma stopRemoteSsh_None:
  "stopRemoteSsh None s =
     (case rejects s ShowTreeItemPicker of
        Some e \<Rightarrow> (Inl e, s\<lparr>trace := trace s @ [ShowTreeItemPicker]\<rparr>)
      | None \<Rightarrow> stopRemoteSsh (Some (picked s)) (s\<lparr>trace := trace s @ [ShowTreeItemPicker]\<rparr>))"
  by (simp add: stopRemoteSsh_def andThen_def returns_def perform_def showTreeItemPicker_def
      split: option.splits)

lemma internal_frame:
  "activeSshSessions (snd (startRemoteSshInternal node s)) = activeSshSessions s \<and>
   (\<exists>xs. trace (snd (startRemoteSshInternal node s)) = trace s @ xs)"
  by (simp add: startRemoteSshInternal_def this_connectToTunnelProxy_def andThen_def ssh_prims Let_def
      split: option.splits)

lemma internal_linux:
  assumes "isLinux node"
    and "rejects s (GetSiteConfig (fullName node)) = None"
    and "rejects s GetPortPromise = None"
    and "rejects s (SetRemoteDebug (fullName node) False) = None"
    and "rejects s (GetWebAppPublishCredential (fullName node)) = None"
    and "rejects s (StartProxy (tunnelFor node s)) = None"
  shows "startRemoteSshInternal node s =
     (Inl (Error notAFunction),
      s\<lparr>siteConfigs := (siteConfigs s)(fullName node := \<lparr>remoteDebuggingEnabled = False\<rparr>),
        trace := trace s @ bringUp node s\<rparr>)"
  using assms
  by (simp add: startRemoteSshInternal_def this_connectToTunnelProxy_def andThen_def ssh_prims
      Let_def tunnelFor_def bringUp_def)

lemma internal_never_succeeds: "fst (startRemoteSshInternal node s) \<noteq> Inr u"
  by (simp add: startRemoteSshInternal_def this_connectToTunnelProxy_def andThen_def ssh_prims
      Let_def split: option.splits)

lemma connectToTunnelProxy_eq:
  "connectToTunnelProxy node p old tp s =
     (Inr (),
      s\<lparr>terminals := terminals s @ [\<lparr>name = sshTerminalName node, processId = nextProcessId s\<rparr>],
        nextProcessId := nextProcessId s + 1,
        listeners := listeners s @
          [\<lparr>l_terminal = \<lparr>name = sshTerminalName node, processId = nextProcessId s\<rparr>,
            l_tunnelProxy = Some tp, l_node = node, l_oldSetting = old\<rparr>],
        trace := trace s @ connectActions node p s\<rparr>)"
  by (simp add: connectToTunnelProxy_def andThen_def ssh_prims Let_def connectActions_def)

lemma internal_not_linux:
  assumes "\<not> isLinux node"
    and "rejects s (GetSiteConfig (fullName node)) = None"
    and "rejects s GetPortPromise = None"
  shows "startRemoteSshInternal node s =
     (Inl (Error notLinux), s\<lparr>trace := trace s @ [GetSiteConfig (fullName node), GetPortPromise]\<rparr>)"
  using assms
  by (simp add: startRemoteSshInternal_def andThen_def ssh_prims Let_def)

lemma internal_not_linux_fails:
  "\<not> isLinux node \<Longrightarrow> \<exists>e. fst (startRemoteSshInternal node s) = Inl e"
  by (simp add: startRemoteSshInternal_def andThen_def ssh_prims Let_def split: option.splits)

lemma start_failure_releases:
  assumes "\<not> truthy (activeSshSessions s (fullName node))"
    and "fst (startRemoteSsh (Some node) s) = Inl e"
  shows "activeSshSessions (snd (startRemoteSsh (Some node) s))
           = (activeSshSessions s)(fullName node \<mapsto> False)"
proof -
  let ?s1 = "s\<lparr>activeSshSessions := (activeSshSessions s)(fullName node \<mapsto> True),
                 trace := trace s @ [RegistrySet (fullName node) True]\<rparr>"
  obtain r s2 where i: "startRemoteSshInternal node ?s1 = (r, s2)"
    by (cases "startRemoteSshInternal node ?s1")
  from internal_frame [of node ?s1] i
  have f: "activeSshSessions s2 = (activeSshSessions s)(fullName node \<mapsto> True)" by simp
  from assms i obtain err where "r = Inl err"
    by (cases r) (auto simp: startRemoteSsh_Some)
  with assms(1) i f show ?thesis
    by (simp add: startRemoteSsh_Some)
qed

lemma start_trace:
  assumes "\<not> truthy (activeSshSessions s (fullName node))"
  shows "\<exists>rest. trace (snd (startRemoteSsh (Some node) s))
            = trace s @ RegistrySet (fullName node) True # rest"
proof -
  let ?s1 = "s\<lparr>activeSshSessions := (activeSshSessions s)(fullName node \<mapsto> True),
                 trace := trace s @ [RegistrySet (fullName node) True]\<rparr>"
  obtain r s2 where i: "startRemoteSshInternal node ?s1 = (r, s2)"
    by (cases "startRemoteSshInternal node ?s1")
  from internal_frame [of node ?s1] i
  obtain xs where "trace s2 = trace s @ RegistrySet (fullName node) True # xs" by auto
  with assms i show ?thesis
    by (cases r) (simp_all add: startRemoteSsh_Some)
qed

lemma start_never_succeeds_Some: "fst (startRemoteSsh (Some node) s) \<noteq> Inr u"
proof (cases "truthy (activeSshSessions s (fullName node))")
  case True
  then show ?thesis by (simp add: startRemoteSsh_Some)
next
  case False
  let ?s1 = "s\<lparr>activeSshSessions := (activeSshSessions s)(fullName node \<mapsto> True),
                 trace := trace s @ [RegistrySet (fullName node) True]\<rparr>"
  obtain r s2 where i: "startRemoteSshInternal node ?s1 = (r, s2)"
    by (cases "startRemoteSshInternal node ?s1")
  with internal_never_succeeds [of node ?s1] obtain err where "r = Inl err"
    by (cases r) auto
  with False i show ?thesis by (simp add: startRemoteSsh_Some)
qed

lemma start_never_succeeds: "fst (startRemoteSsh nodeArg s) \<noteq> Inr u"
proof (cases nodeArg)
  case (Some node)
  then show ?thesis by (simp add: start_never_succeeds_Some)
next
  case None
  then show ?thesis
    using start_never_succeeds_Some [of "picked s" "s\<lparr>trace := trace s @ [ShowTreeItemPicker]\<rparr>" u]
    by (simp add: startRemoteSsh_None split: option.splits)
qed

subsection \<open>The concrete states\<close>

lemma idle_fields:
  "activeSshSessions idle = Map.empty" "terminals idle = []" "nextProcessId idle = 100"
  "listeners idle = []" "freePort idle = 8000" "rejects idle = (\<lambda>_. None)" "trace idle = []"
  "siteConfigs idle = (\<lambda>_. \<lparr>remoteDebuggingEnabled = True\<rparr>)"
  "publishCredential idle = (\<lambda>_. ''secret'')" "picked idle = app1"
  by (simp_all add: idle_def)

lemma starting_eq:
  "starting =
     idle\<lparr>activeSshSessions := [''app1'' \<mapsto> True],
          siteConfigs := (siteConfigs idle)(''app1'' := \<lparr>remoteDebuggingEnabled = False\<rparr>),
          trace := RegistrySet ''app1'' True # bringUp app1 idle\<rparr>"
proof -
  let ?s1 = "idle\<lparr>activeSshSessions := (activeSshSessions idle)(fullName app1 \<mapsto> True),
                 trace := trace idle @ [RegistrySet (fullName app1) True]\<rparr>"
  have "startRemoteSshInternal app1 ?s1 =
     (Inl (Error notAFunction),
      ?s1\<lparr>siteConfigs := (siteConfigs ?s1)(fullName app1 := \<lparr>remoteDebuggingEnabled = False\<rparr>),
        trace := trace ?s1 @ bringUp app1 ?s1\<rparr>)"
    by (rule internal_linux) (simp_all add: idle_fields app1_def)
  then show ?thesis
    by (simp add: starting_def activeSshSessions_set_def idle_fields tunnelFor_def bringUp_def)
      (simp add: app1_def)
qed

lemma start_idle:
  "startRemoteSsh (Some app1) idle =
     (Inl (Error notAFunction),
      starting\<lparr>activeSshSessions := [''app1'' \<mapsto> False],
               trace := trace starting @ [RegistrySet ''app1'' False]\<rparr>)"
proof -
  have "startRemoteSshInternal app1 (snd (activeSshSessions_set (fullName app1) True idle))
          = (Inl (Error notAFunction), starting)"
    using internal_linux [of app1 "snd (activeSshSessions_set (fullName app1) True idle)"]
    by (simp add: starting_def activeSshSessions_set_def idle_fields app1_def)
  then show ?thesis
    by (simp add: startRemoteSsh_Some idle_fields activeSshSessions_set_def starting_eq)
      (simp add: app1_def)
qed

lemma starting_fields:
  "activeSshSessions starting = [''app1'' \<mapsto> True]"
  "terminals starting = []"
  "listeners starting = []"
  "nextProcessId starting = 100"
  "rejects starting = (\<lambda>_. None)"
  "siteConfigs starting = (siteConfigs idle)(''app1'' := \<lparr>remoteDebuggingEnabled = False\<rparr>)"
  "trace starting = RegistrySet ''app1'' True # bringUp app1 idle"
  by (simp_all add: starting_eq idle_fields)

lemma connected_eq:
  "connected =
     starting\<lparr>terminals := [app1_terminal], nextProcessId := 101, listeners := [app1_listener],
              trace := trace starting @ connectActions app1 8000 starting\<rparr>"
  by (simp add: connected_def connectToTunnelProxy_eq starting_fields app1_terminal_def
      app1_listener_def app1_tunnel_def sshTerminalName_def app1_def)

lemma connected_fields:
  "activeSshSessions connected = [''app1'' \<mapsto> True]"
  "terminals connected = [app1_terminal]"
  "listeners connected = [app1_listener]"
  "rejects connected = (\<lambda>_. None)"
  "siteConfigs connected = (siteConfigs idle)(''app1'' := \<lparr>remoteDebuggingEnabled = False\<rparr>)"
  by (simp_all add: connected_eq starting_fields)

subsection \<open>A second start for the same target\<close>

text \<open>
  Claim C5. When the registry holds a truthy entry for the key of \<open>node\<close>,
  \<open>startRemoteSsh\<close> throws the "already started" error and leaves the whole state as it
  was: the registry, the terminals, the site configuration, the listeners, and no action
  is recorded. Otherwise the first thing a call does is write the registration: its
  actions begin with the registry write, before any call to a collaborator. When the
  node comes from the tree item picker, the picker is the one call that precedes the
  test and the write.
\<close>

theorem duplicate_start:
  "(truthy (activeSshSessions s (fullName node)) \<longrightarrow>
      startRemoteSsh (Some node) s = (Inl (Error (alreadyStarted (fullName node))), s)) \<and>
   (\<not> truthy (activeSshSessions s (fullName node)) \<longrightarrow>
      (\<exists>rest. trace (snd (startRemoteSsh (Some node) s))
                 = trace s @ RegistrySet (fullName node) True # rest)) \<and>
   (rejects s ShowTreeItemPicker = None \<longrightarrow>
      (truthy (activeSshSessions s (fullName (picked s))) \<longrightarrow>
         startRemoteSsh None s =
           (Inl (Error (alreadyStarted (fullName (picked s)))),
            s\<lparr>trace := trace s @ [ShowTreeItemPicker]\<rparr>)) \<and>
      (\<not> truthy (activeSshSessions s (fullName (picked s))) \<longrightarrow>
         (\<exists>rest. trace (snd (startRemoteSsh None s))
                 = trace s @ ShowTreeItemPicker # RegistrySet (fullName (picked s)) True # rest)))"
proof -
  let ?p = "s\<lparr>trace := trace s @ [ShowTreeItemPicker]\<rparr>"
  have a: "truthy (activeSshSessions s (fullName node)) \<longrightarrow>
      startRemoteSsh (Some node) s = (Inl (Error (alreadyStarted (fullName node))), s)"
    by (simp add: startRemoteSsh_Some)
  have b: "\<not> truthy (activeSshSessions s (fullName node)) \<longrightarrow>
      (\<exists>rest. trace (snd (startRemoteSsh (Some node) s))
                 = trace s @ RegistrySet (fullName node) True # rest)"
    using start_trace [of s node] by blast
  have c: "rejects s ShowTreeItemPicker = None \<longrightarrow>
      truthy (activeSshSessions s (fullName (picked s))) \<longrightarrow>
         startRemoteSsh None s =
           (Inl (Error (alreadyStarted (fullName (picked s)))), ?p)"
    by (simp add: startRemoteSsh_None startRemoteSsh_Some)
  have d: "rejects s ShowTreeItemPicker = None \<longrightarrow>
      \<not> truthy (activeSshSessions s (fullName (picked s))) \<longrightarrow>
         (\<exists>rest. trace (snd (startRemoteSsh None s))
                 = trace s @ ShowTreeItemPicker # RegistrySet (fullName (picked s)) True # rest)"
    using start_trace [of ?p "picked s"] by (auto simp: startRemoteSsh_None)
  from a b c d show ?thesis by blast
qed

theorem duplicate_start_witness:
  "truthy (activeSshSessions starting (fullName app1)) \<and>
   startRemoteSsh (Some app1) starting =
     (Inl (Error ''Azure Remote SSH is currently starting or already started for \"app1\".''), starting) \<and>
   \<not> truthy (activeSshSessions idle (fullName app1)) \<and>
   take 2 (trace (snd (startRemoteSsh (Some app1) idle))) = [RegistrySet ''app1'' True, GetSiteConfig ''app1'']"
proof -
  have t: "truthy (activeSshSessions starting (fullName app1))"
    by (simp add: starting_fields app1_def)
  have f: "\<not> truthy (activeSshSessions idle (fullName app1))"
    by (simp add: idle_fields)
  have "startRemoteSsh (Some app1) starting = (Inl (Error (alreadyStarted (fullName app1))), starting)"
    using duplicate_start [of starting app1] t by blast
  then have d: "startRemoteSsh (Some app1) starting =
     (Inl (Error ''Azure Remote SSH is currently starting or already started for \"app1\".''), starting)"
    by (simp add: alreadyStarted_def app1_def)
  have tr: "take 2 (trace (snd (startRemoteSsh (Some app1) idle))) = [RegistrySet ''app1'' True, GetSiteConfig ''app1'']"
    by (simp add: start_idle starting_fields bringUp_def) (simp add: app1_def)
  show ?thesis using t f d tr by simp
qed

subsection \<open>A target that is not Linux\<close>

text \<open>
  Claim C6. For a site that is not Linux and has no active session, \<open>startRemoteSsh\<close>
  ends with an error thrown to the caller and the registry maps the key to \<^verbatim>\<open>false\<close>,
  so no session is reported active. When the configuration fetch and the port finder
  resolve, the error is the "only supported for Linux web apps" one, and the state
  differs from the one before only in the registry entry and the recorded actions. The
  second part is the same release for every failure of the bring-up, on any site.
\<close>

theorem start_not_linux:
  "(\<not> isLinux node \<and> \<not> truthy (activeSshSessions s (fullName node)) \<longrightarrow>
      (\<exists>e. fst (startRemoteSsh (Some node) s) = Inl e) \<and>
      activeSshSessions (snd (startRemoteSsh (Some node) s)) (fullName node) = Some False \<and>
      \<not> active (snd (startRemoteSsh (Some node) s)) (fullName node) \<and>
      (rejects s (GetSiteConfig (fullName node)) = None \<and> rejects s GetPortPromise = None \<longrightarrow>
         startRemoteSsh (Some node) s =
           (Inl (Error notLinux),
            s\<lparr>activeSshSessions := (activeSshSessions s)(fullName node \<mapsto> False),
              trace := trace s @ [RegistrySet (fullName node) True, GetSiteConfig (fullName node),
                                  GetPortPromise, RegistrySet (fullName node) False]\<rparr>))) \<and>
   (\<not> truthy (activeSshSessions s (fullName node)) \<and> fst (startRemoteSsh (Some node) s) = Inl e \<longrightarrow>
      activeSshSessions (snd (startRemoteSsh (Some node) s)) (fullName node) = Some False \<and>
      \<not> active (snd (startRemoteSsh (Some node) s)) (fullName node))"
proof -
  let ?k = "fullName node"
  let ?s1 = "s\<lparr>activeSshSessions := (activeSshSessions s)(?k \<mapsto> True),
                 trace := trace s @ [RegistrySet ?k True]\<rparr>"
  have general: "activeSshSessions (snd (startRemoteSsh (Some node) s)) ?k = Some False \<and>
      \<not> active (snd (startRemoteSsh (Some node) s)) ?k"
    if "\<not> truthy (activeSshSessions s ?k)" "fst (startRemoteSsh (Some node) s) = Inl e'" for e'
    using start_failure_releases [OF that] by (simp add: active_def)
  have fails: "\<exists>e. fst (startRemoteSsh (Some node) s) = Inl e"
    if "\<not> isLinux node" "\<not> truthy (activeSshSessions s ?k)"
  proof -
    from internal_not_linux_fails [OF that(1), of ?s1]
    obtain e where "fst (startRemoteSshInternal node ?s1) = Inl e" by blast
    with that(2) show ?thesis
      by (cases "startRemoteSshInternal node ?s1") (simp add: startRemoteSsh_Some)
  qed
  have exact: "startRemoteSsh (Some node) s =
           (Inl (Error notLinux),
            s\<lparr>activeSshSessions := (activeSshSessions s)(?k \<mapsto> False),
              trace := trace s @ [RegistrySet ?k True, GetSiteConfig ?k,
                                  GetPortPromise, RegistrySet ?k False]\<rparr>)"
    if "\<not> isLinux node" "\<not> truthy (activeSshSessions s ?k)"
       "rejects s (GetSiteConfig ?k) = None" "rejects s GetPortPromise = None"
  proof -
    have "startRemoteSshInternal node ?s1 =
       (Inl (Error notLinux), ?s1\<lparr>trace := trace ?s1 @ [GetSiteConfig ?k, GetPortPromise]\<rparr>)"
      by (rule internal_not_linux) (simp_all add: that)
    with that(2) show ?thesis by (simp add: startRemoteSsh_Some)
  qed
  show ?thesis using general fails exact by blast
qed

theorem start_not_linux_witness:
  "\<not> isLinux app1_windows \<and> \<not> truthy (activeSshSessions idle (fullName app1_windows)) \<and>
   fst (startRemoteSsh (Some app1_windows) idle) =
     Inl (Error ''Azure Remote SSH is only supported for Linux web apps.'') \<and>
   activeSshSessions (snd (startRemoteSsh (Some app1_windows) idle)) ''app1'' = Some False"
proof -
  have h: "\<not> isLinux app1_windows" "\<not> truthy (activeSshSessions idle (fullName app1_windows))"
    "rejects idle (GetSiteConfig (fullName app1_windows)) = None" "rejects idle GetPortPromise = None"
    by (simp_all add: app1_windows_def idle_fields)
  from start_not_linux [of app1_windows idle] h
  have "startRemoteSsh (Some app1_windows) idle =
           (Inl (Error notLinux),
            idle\<lparr>activeSshSessions := (activeSshSessions idle)(fullName app1_windows \<mapsto> False),
              trace := trace idle @ [RegistrySet (fullName app1_windows) True,
                                  GetSiteConfig (fullName app1_windows),
                                  GetPortPromise, RegistrySet (fullName app1_windows) False]\<rparr>)"
    by blast
  then show ?thesis using h by (simp add: notLinux_def app1_windows_def)
qed

lemma disposeFirstNamed_find:
  "disposeFirstNamed nm ts s =
     map_option (\<lambda>t. disposeTerminal t s) (find (\<lambda>t. name t = nm) ts)"
  by (induction ts) simp_all

lemma stopRemoteSsh_Some:
  "stopRemoteSsh (Some node) s =
     (if \<not> truthy (activeSshSessions s (fullName node))
      then (Inl (Error (notRunning (fullName node))), s)
      else
        (case find (\<lambda>t. name t = sshTerminalName node) (terminals s) of
           Some terminal \<Rightarrow>
             (Inr (), s\<lparr>terminals := filter (\<lambda>t. processId t \<noteq> processId terminal) (terminals s),
                        trace := trace s @ [DisposeTerminal (processId terminal)]\<rparr>)
         | None \<Rightarrow> (Inl (Error (couldNotBeFound (sshTerminalName node))), s)))"
  by (simp add: stopRemoteSsh_def andThen_def returns_def throw_def disposeFirstNamed_find
      disposeTerminal_def split: option.splits)

subsection \<open>Stopping a session\<close>

text \<open>
  Claim C7. Without a truthy registry entry \<open>stopRemoteSsh\<close> throws "not currently
  running" and the state is unchanged: nothing is disposed. With one, the first
  terminal of the window whose name is the session's terminal name is disposed and
  nothing else changes; when the window has no terminal of that name the call throws
  "could not be found" and the state, the registry entry included, is unchanged.
\<close>

theorem stop_session:
  "(\<not> truthy (activeSshSessions s (fullName node)) \<longrightarrow>
      stopRemoteSsh (Some node) s = (Inl (Error (notRunning (fullName node))), s)) \<and>
   (truthy (activeSshSessions s (fullName node)) \<longrightarrow>
      (case find (\<lambda>t. name t = sshTerminalName node) (terminals s) of
         Some terminal \<Rightarrow>
           stopRemoteSsh (Some node) s =
             (Inr (), s\<lparr>terminals := filter (\<lambda>t. processId t \<noteq> processId terminal) (terminals s),
                        trace := trace s @ [DisposeTerminal (processId terminal)]\<rparr>)
       | None \<Rightarrow>
           stopRemoteSsh (Some node) s =
             (Inl (Error (couldNotBeFound (sshTerminalName node))), s)))"
  by (simp add: stopRemoteSsh_Some split: option.splits)

theorem stop_session_witness:
  "\<not> truthy (activeSshSessions idle (fullName app1)) \<and>
   stopRemoteSsh (Some app1) idle =
     (Inl (Error ''Azure Remote SSH is not currently running for \"app1\".''), idle) \<and>
   truthy (activeSshSessions connected (fullName app1)) \<and>
   stopRemoteSsh (Some app1) connected =
     (Inr (), connected\<lparr>terminals := [], trace := trace connected @ [DisposeTerminal 100]\<rparr>) \<and>
   truthy (activeSshSessions starting (fullName app1)) \<and>
   stopRemoteSsh (Some app1) starting =
     (Inl (Error ''Terminal \"app1 - Remote SSH\" could not be found.''), starting)"
proof -
  have a: "\<not> truthy (activeSshSessions idle (fullName app1))"
    by (simp add: idle_fields)
  have b: "truthy (activeSshSessions connected (fullName app1))"
    "truthy (activeSshSessions starting (fullName app1))"
    by (simp_all add: connected_fields starting_fields app1_def)
  have f: "find (\<lambda>t. name t = sshTerminalName app1) (terminals connected) = Some app1_terminal"
    "find (\<lambda>t. name t = sshTerminalName app1) (terminals starting) = None"
    by (simp_all add: connected_fields starting_fields app1_terminal_def sshTerminalName_def app1_def)
  have r1: "stopRemoteSsh (Some app1) idle = (Inl (Error (notRunning (fullName app1))), idle)"
    using stop_session [of idle app1] a by blast
  have r2: "stopRemoteSsh (Some app1) connected =
     (Inr (), connected\<lparr>terminals := filter (\<lambda>t. processId t \<noteq> processId app1_terminal) (terminals connected),
                        trace := trace connected @ [DisposeTerminal (processId app1_terminal)]\<rparr>)"
    using stop_session [of connected app1] b f by simp
  have r3: "stopRemoteSsh (Some app1) starting =
     (Inl (Error (couldNotBeFound (sshTerminalName app1))), starting)"
    using stop_session [of starting app1] b f by simp
  have r2e: "stopRemoteSsh (Some app1) connected =
     (Inr (), connected\<lparr>terminals := [], trace := trace connected @ [DisposeTerminal 100]\<rparr>)"
    by (simp add: r2 connected_fields(2)) (simp add: app1_terminal_def)
  show ?thesis
    using a b r1 r2e r3 by (simp add: notRunning_def couldNotBeFound_def sshTerminalName_def app1_def)
qed

subsection \<open>Order of the bring-up\<close>






lemma closeHandler_other:
  "processId e \<noteq> processId (l_terminal l) \<Longrightarrow> closeHandler l e s = (Inr (), s)"
  by (simp add: closeHandler_def returns_def)

lemma closeHandler_disposed:
  assumes "processId e = processId (l_terminal l)" and "l_tunnelProxy l = Some tp"
    and "rejects s (DisposeProxy tp) = None"
  shows "closeHandler l e s =
     setRemoteDebug (l_oldSetting l) (fullName (l_node l))
       (s\<lparr>activeSshSessions := (activeSshSessions s)(fullName (l_node l) \<mapsto> False),
          trace := trace s @ [DisposeProxy tp, RegistrySet (fullName (l_node l)) False,
                              AppendLine (hasDisconnected (fullName (l_node l)))]\<rparr>)"
  using assms
  by (simp add: closeHandler_def andThen_def disposeProxy_def perform_def
      activeSshSessions_set_def appendLine_def record_action_def)


lemma setRemoteDebug_frame:
  "activeSshSessions (snd (setRemoteDebug b k s)) = activeSshSessions s \<and>
   trace (snd (setRemoteDebug b k s)) = trace s @ [SetRemoteDebug k b]"
  by (simp add: setRemoteDebug_def andThen_def perform_def split: option.splits)


subsection \<open>Teardown when the terminal closes\<close>





subsection \<open>The registry keeps its keys\<close>

lemma start_dom_Some:
  "dom (activeSshSessions s) \<subseteq> dom (activeSshSessions (snd (startRemoteSsh (Some node) s)))"
proof (cases "truthy (activeSshSessions s (fullName node))")
  case True
  then show ?thesis by (simp add: startRemoteSsh_Some)
next
  case False
  show ?thesis
  proof (cases "fst (startRemoteSsh (Some node) s)")
    case (Inl e)
    from start_failure_releases [OF False Inl] show ?thesis by auto
  next
    case (Inr u)
    with start_never_succeeds_Some [of node s u] show ?thesis by simp
  qed
qed

lemma start_dom:
  "dom (activeSshSessions s) \<subseteq> dom (activeSshSessions (snd (startRemoteSsh nodeArg s)))"
proof (cases nodeArg)
  case (Some node)
  then show ?thesis using start_dom_Some [of s node] by simp
next
  case None
  show ?thesis
  proof (cases "rejects s ShowTreeItemPicker")
    case (Some e)
    with None show ?thesis by (simp add: startRemoteSsh_None)
  next
    case nr: None
    with None start_dom_Some [of "s\<lparr>trace := trace s @ [ShowTreeItemPicker]\<rparr>" "picked s"]
    show ?thesis by (simp add: startRemoteSsh_None)
  qed
qed

lemma stop_registry_Some:
  "activeSshSessions (snd (stopRemoteSsh (Some node) s)) = activeSshSessions s"
  by (simp add: stopRemoteSsh_Some split: option.splits)

lemma stop_registry:
  "activeSshSessions (snd (stopRemoteSsh nodeArg s)) = activeSshSessions s"
proof (cases nodeArg)
  case (Some node)
  then show ?thesis by (simp add: stop_registry_Some)
next
  case None
  then show ?thesis
    using stop_registry_Some [of "picked s" "s\<lparr>trace := trace s @ [ShowTreeItemPicker]\<rparr>"]
    by (simp add: stopRemoteSsh_None split: option.splits)
qed

lemma closeHandler_dom:
  "dom (activeSshSessions s) \<subseteq> dom (activeSshSessions (snd (closeHandler l e s)))"
  by (auto simp: closeHandler_def andThen_def returns_def disposeProxy_def perform_def
      activeSshSessions_set_def appendLine_def record_action_def setRemoteDebug_def
      split: option.splits)

text \<open>
  The part of claim C10 that holds. No operation removes a key from the registry: the
  keys before \<open>startRemoteSsh\<close>, \<open>stopRemoteSsh\<close> and the close handler are keys after. A
  failed start maps the key to \<^verbatim>\<open>false\<close>, and so does the teardown once the tunnel is
  disposed. For a key mapped to \<^verbatim>\<open>false\<close>, \<open>startRemoteSsh\<close> returns the same result and
  the same state as it does when the key is absent, and \<open>stopRemoteSsh\<close> throws "not
  currently running".
\<close>

lemma registry_keeps_keys:
  "dom (activeSshSessions s) \<subseteq> dom (activeSshSessions (snd (startRemoteSsh nodeArg s))) \<and>
   dom (activeSshSessions s) \<subseteq> dom (activeSshSessions (snd (stopRemoteSsh nodeArg s))) \<and>
   dom (activeSshSessions s) \<subseteq> dom (activeSshSessions (snd (closeHandler l e s))) \<and>
   (\<not> truthy (activeSshSessions s (fullName node)) \<and> fst (startRemoteSsh (Some node) s) = Inl err \<longrightarrow>
      activeSshSessions (snd (startRemoteSsh (Some node) s)) (fullName node) = Some False) \<and>
   (processId e = processId (l_terminal l) \<and> l_tunnelProxy l = Some tp \<and>
    rejects s (DisposeProxy tp) = None \<longrightarrow>
      activeSshSessions (snd (closeHandler l e s)) (fullName (l_node l)) = Some False) \<and>
   (activeSshSessions s (fullName node) = Some False \<longrightarrow>
      startRemoteSsh (Some node) s =
        startRemoteSsh (Some node)
          (s\<lparr>activeSshSessions := (activeSshSessions s)(fullName node := None)\<rparr>) \<and>
      stopRemoteSsh (Some node) s = (Inl (Error (notRunning (fullName node))), s))"
proof -
  let ?k = "fullName node"
  have failed: "activeSshSessions (snd (startRemoteSsh (Some node) s)) ?k = Some False"
    if "\<not> truthy (activeSshSessions s ?k)" "fst (startRemoteSsh (Some node) s) = Inl err"
    using start_failure_releases [OF that] by simp
  have closed: "activeSshSessions (snd (closeHandler l e s)) (fullName (l_node l)) = Some False"
    if "processId e = processId (l_terminal l)" "l_tunnelProxy l = Some tp"
       "rejects s (DisposeProxy tp) = None"
    using setRemoteDebug_frame by (simp add: closeHandler_disposed [OF that])
  have same: "startRemoteSsh (Some node) s =
        startRemoteSsh (Some node) (s\<lparr>activeSshSessions := (activeSshSessions s)(?k := None)\<rparr>)"
    if "activeSshSessions s ?k = Some False"
    using that by (simp add: startRemoteSsh_Some)
  have stop: "stopRemoteSsh (Some node) s = (Inl (Error (notRunning ?k)), s)"
    if "activeSshSessions s ?k = Some False"
    using that by (simp add: stopRemoteSsh_Some)
  have d1: "dom (activeSshSessions s) \<subseteq> dom (activeSshSessions (snd (startRemoteSsh nodeArg s)))"
    by (rule start_dom)
  have d2: "dom (activeSshSessions s) \<subseteq> dom (activeSshSessions (snd (stopRemoteSsh nodeArg s)))"
    by (simp add: stop_registry)
  have d3: "dom (activeSshSessions s) \<subseteq> dom (activeSshSessions (snd (closeHandler l e s)))"
    by (rule closeHandler_dom)
  have c4: "\<not> truthy (activeSshSessions s ?k) \<and> fst (startRemoteSsh (Some node) s) = Inl err \<longrightarrow>
      activeSshSessions (snd (startRemoteSsh (Some node) s)) ?k = Some False"
    using failed by blast
  have c5: "processId e = processId (l_terminal l) \<and> l_tunnelProxy l = Some tp \<and>
    rejects s (DisposeProxy tp) = None \<longrightarrow>
      activeSshSessions (snd (closeHandler l e s)) (fullName (l_node l)) = Some False"
    using closed by blast
  have c6: "activeSshSessions s ?k = Some False \<longrightarrow>
      startRemoteSsh (Some node) s =
        startRemoteSsh (Some node) (s\<lparr>activeSshSessions := (activeSshSessions s)(?k := None)\<rparr>) \<and>
      stopRemoteSsh (Some node) s = (Inl (Error (notRunning ?k)), s)"
    using same stop by blast
  show ?thesis by (intro conjI d1 d2 d3 c4 c5 c6)
qed

text \<open>
  Claim C10, where the code departs from it. The claim has a start for a key mapped to
  \<^verbatim>\<open>false\<close> succeed and register the key again. No start succeeds: the callback calls
  \<^verbatim>\<open>this.connectToTunnelProxy\<close> on the action context, so once the tunnel has started a
  \<^verbatim>\<open>TypeError\<close> is thrown and the \<^verbatim>\<open>catch\<close> maps the key to \<^verbatim>\<open>false\<close>. For the Linux app
  \<open>app1\<close> with every call resolving: the first start from \<open>idle\<close> fails and leaves the
  key mapped to \<^verbatim>\<open>false\<close>; the start after it fails in the same way, the key is still
  mapped to \<^verbatim>\<open>false\<close>, and there is no terminal.
\<close>

theorem restart_fails:
  "fst (startRemoteSsh nodeArg s) \<noteq> Inr u \<and>
   isLinux app1 \<and> rejects idle = (\<lambda>_. None) \<and>
   activeSshSessions (snd (startRemoteSsh (Some app1) idle)) ''app1'' = Some False \<and>
   rejects (snd (startRemoteSsh (Some app1) idle)) = (\<lambda>_. None) \<and>
   fst (startRemoteSsh (Some app1) (snd (startRemoteSsh (Some app1) idle)))
     = Inl (Error ''this.connectToTunnelProxy is not a function'') \<and>
   activeSshSessions (snd (startRemoteSsh (Some app1) (snd (startRemoteSsh (Some app1) idle)))) ''app1''
     = Some False \<and>
   terminals (snd (startRemoteSsh (Some app1) (snd (startRemoteSsh (Some app1) idle)))) = []"
proof -
  let ?r = "snd (startRemoteSsh (Some app1) idle)"
  let ?s1 = "?r\<lparr>activeSshSessions := (activeSshSessions ?r)(fullName app1 \<mapsto> True),
                 trace := trace ?r @ [RegistrySet (fullName app1) True]\<rparr>"
  have r: "activeSshSessions ?r = [''app1'' \<mapsto> False]" "rejects ?r = (\<lambda>_. None)"
    "terminals ?r = []"
    by (simp_all add: start_idle starting_fields)
  have i: "startRemoteSshInternal app1 ?s1 =
     (Inl (Error notAFunction),
      ?s1\<lparr>siteConfigs := (siteConfigs ?s1)(fullName app1 := \<lparr>remoteDebuggingEnabled = False\<rparr>),
        trace := trace ?s1 @ bringUp app1 ?s1\<rparr>)"
    by (rule internal_linux) (simp_all add: r, simp add: app1_def)
  have n: "\<not> truthy (activeSshSessions ?r (fullName app1))"
    by (simp add: r)
  have again: "fst (startRemoteSsh (Some app1) ?r) = Inl (Error notAFunction)"
    "activeSshSessions (snd (startRemoteSsh (Some app1) ?r)) (fullName app1) = Some False"
    "terminals (snd (startRemoteSsh (Some app1) ?r)) = []"
    using n i by (simp_all add: startRemoteSsh_Some [of app1 ?r] r(3))
  show ?thesis
    using start_never_succeeds [of nodeArg s u] r again
    by (simp add: notAFunction_def idle_fields app1_def)
qed

end
